theory Spec2Isabelle
  imports Complex_Main "HOL-Library.Char_ord" "HOL-Library.Multiset" "HOL-Library.AList"
begin

section \<open>Python values used by the guardrail agents\<close>

text \<open>
  A Python \<open>str\<close> is a sequence of code points. The model reads a \<^typ>\<open>char\<close> as one code
  point in the range U+0000..U+00FF (Latin-1), so \<^typ>\<open>string\<close> stands for the Python strings
  whose code points are below 256, and \<^const>\<open>length\<close> counts what \<open>len\<close> counts. The
  non-ASCII letters of the source's French literals are written \<open>CHR 0xE8\<close> (e grave) and
  \<open>CHR 0xE9\<close> (e acute). Python's \<open>int\<close> is \<^typ>\<open>int\<close>; a \<open>float\<close> is idealised as a
  \<^typ>\<open>real\<close>; a value of \<open>time.time()\<close> is an argument of the operation that reads the clock.
\<close>

datatype py_error = IndexError | KeyError | TypeError | ValueError

definition dict_get :: "('k \<times> 'v) list \<Rightarrow> 'k \<Rightarrow> 'v \<Rightarrow> 'v" where
  \<comment> \<open>\<open>d.get(k, default)\<close> on a dict literal, written as its list of items\<close>
  "dict_get d k dflt = (case map_of d k of None \<Rightarrow> dflt | Some v \<Rightarrow> v)"

subsection \<open>Characters\<close>

definition str_lower_char :: "char \<Rightarrow> char" where
  \<comment> \<open>\<open>c.lower()\<close> for a code point below 256: A..Z and U+00C0..U+00DE except U+00D7\<close>
  "str_lower_char c =
     (if (CHR ''A'' \<le> c \<and> c \<le> CHR ''Z'') \<or> (CHR 0xC0 \<le> c \<and> c \<le> CHR 0xDE \<and> c \<noteq> CHR 0xD7)
      then char_of (of_char c + (32::nat)) else c)"

definition str_lower :: "string \<Rightarrow> string" where
  "str_lower s = map str_lower_char s"

definition isspace :: "char \<Rightarrow> bool" where
  \<comment> \<open>\<open>c.isspace()\<close>, which is also what \<open>\\s\<close> matches: 9..13, 28..32, 133, 160\<close>
  "isspace c = ((CHR 0x09 \<le> c \<and> c \<le> CHR 0x0D) \<or> (CHR 0x1C \<le> c \<and> c \<le> CHR 0x20)
                 \<or> c = CHR 0x85 \<or> c = CHR 0xA0)"

definition isdigit :: "char \<Rightarrow> bool" where
  \<comment> \<open>what \<open>\\d\<close> matches below 256\<close>
  "isdigit c = (CHR ''0'' \<le> c \<and> c \<le> CHR ''9'')"

definition isalpha_ascii :: "char \<Rightarrow> bool" where
  "isalpha_ascii c = ((CHR ''A'' \<le> c \<and> c \<le> CHR ''Z'') \<or> (CHR ''a'' \<le> c \<and> c \<le> CHR ''z''))"

definition isword :: "char \<Rightarrow> bool" where
  \<comment> \<open>what \<open>\\w\<close> matches below 256: alphanumeric code points and the underscore\<close>
  "isword c = (isdigit c \<or> isalpha_ascii c \<or> c = CHR ''_''
                \<or> c = CHR 0xAA \<or> c = CHR 0xB2 \<or> c = CHR 0xB3 \<or> c = CHR 0xB5 \<or> c = CHR 0xB9
                \<or> c = CHR 0xBA \<or> (CHR 0xBC \<le> c \<and> c \<le> CHR 0xBE)
                \<or> (CHR 0xC0 \<le> c \<and> c \<noteq> CHR 0xD7 \<and> c \<noteq> CHR 0xF7))"

subsection \<open>Strings and slices\<close>

definition slice :: "'a list \<Rightarrow> int option \<Rightarrow> int option \<Rightarrow> 'a list" where
  \<comment> \<open>\<open>xs[a:b]\<close>: a negative bound counts from the end, both bounds are clamped, \<open>None\<close> is a
      missing bound\<close>
  "slice xs a b =
     (let n = int (length xs);
          norm = (\<lambda>i. if i < 0 then max 0 (n + i) else min n i);
          lo = (case a of None \<Rightarrow> 0 | Some i \<Rightarrow> norm i);
          hi = (case b of None \<Rightarrow> n | Some i \<Rightarrow> norm i)
      in take (nat (hi - lo)) (drop (nat lo) xs))"

fun split_on :: "char \<Rightarrow> string \<Rightarrow> string list" where
  \<comment> \<open>\<open>s.split(sep)\<close> for a separator of one character\<close>
  "split_on sep [] = [[]]"
| "split_on sep (c # cs) =
     (if c = sep then [] # split_on sep cs
      else (case split_on sep cs of [] \<Rightarrow> [[c]] | w # ws \<Rightarrow> (c # w) # ws))"

fun split_ws :: "string \<Rightarrow> string list" where
  \<comment> \<open>\<open>s.split()\<close>: the maximal runs of characters that are not white space\<close>
  "split_ws [] = []"
| "split_ws (c # cs) =
     (if isspace c then split_ws cs
      else (case cs of
              [] \<Rightarrow> [[c]]
            | d # ds \<Rightarrow> if isspace d then [c] # split_ws cs
                       else (case split_ws cs of [] \<Rightarrow> [[c]] | w # ws \<Rightarrow> (c # w) # ws)))"

fun startswith :: "string \<Rightarrow> string \<Rightarrow> bool" where
  "startswith s [] = True"
| "startswith [] (p # ps) = False"
| "startswith (c # cs) (p # ps) = (c = p \<and> startswith cs ps)"

fun contains :: "string \<Rightarrow> string \<Rightarrow> bool" where
  \<comment> \<open>\<open>sub in s\<close>\<close>
  "contains [] sub = (sub = [])"
| "contains (c # cs) sub = (startswith (c # cs) sub \<or> contains cs sub)"

section \<open>Score functions\<close>

text \<open>
  \<open>ComplianceTools._calculate_compliance_score\<close>, \<open>QualityTools._calculate_quality_score\<close> and
  \<open>SecureAgent._calculate_security_score\<close> read only the \<open>type\<close> of each finding. The
  \<open>metrics\<close> of a quality issue are the pattern and position of a match, or the report of the
  drift calculation; its confidence is a float that the drift calculation can leave as NaN
  (\<open>None\<close>).
\<close>

record ComplianceViolation =
  cv_type :: string
  cv_severity :: string
  cv_description :: string
  cv_position :: nat
  cv_confidence :: real

record drift_report =
  drift_detected :: bool
  dr_description :: string
  dr_confidence :: "real option"
  length_change :: "real option"
  word_change :: "real option"
  recent_avg_length :: "real option"
  older_avg_length :: "real option"

datatype issue_metrics =
    Pattern_metrics string nat
  | Bias_metrics string string nat
  | Drift_metrics drift_report

record QualityIssue =
  qi_type :: string
  qi_severity :: string
  qi_description :: string
  qi_confidence :: "real option"
  qi_metrics :: issue_metrics

record PIIDetection =
  pii_type :: string
  pii_value :: string
  pii_position :: nat
  pii_confidence :: real
  pii_masked_value :: string

definition compliance_penalties :: "(string \<times> int) list" where
  "compliance_penalties =
     [(''jailbreak'', 25), (''prompt_injection'', 20), (''financial_advice'', 15), (''misuse'', 40)]"

definition quality_penalties :: "(string \<times> int) list" where
  "quality_penalties =
     [(''hallucination'', 20), (''bias_cultural'', 15), (''bias_gender'', 15), (''bias_social'', 15),
      (''bias_age'', 15), (''input_drift'', 10), (''output_drift'', 15)]"

definition security_penalties :: "(string \<times> int) list" where
  "security_penalties =
     [(''ssn'', 30), (''credit_card'', 25), (''email'', 15), (''phone'', 10), (''address'', 20),
      (''name'', 5)]"

definition calculate_compliance_score :: "ComplianceViolation list \<Rightarrow> int" where
  "calculate_compliance_score violations =
     (if violations = [] then 100
      else let total_penalty = sum_list (map (\<lambda>v. dict_get compliance_penalties (cv_type v) 10) violations)
           in max 0 (100 - total_penalty))"

definition calculate_quality_score :: "QualityIssue list \<Rightarrow> int" where
  "calculate_quality_score issues =
     (if issues = [] then 100
      else let total_penalty = sum_list (map (\<lambda>i. dict_get quality_penalties (qi_type i) 10) issues)
           in max 0 (100 - total_penalty))"

definition calculate_security_score :: "PIIDetection list \<Rightarrow> int" where
  "calculate_security_score detections =
     (if detections = [] then 100
      else let total_penalty = sum_list (map (\<lambda>d. dict_get security_penalties (pii_type d) 10) detections)
           in max 0 (100 - total_penalty))"

section \<open>Regular expressions as the PII catalogue uses them\<close>

text \<open>
  Every pattern of \<open>SecurityTools.pii_patterns\<close> is built from character classes, greedy
  repetition of a class, greedy optional parts, ordered alternatives and the assertion \<open>\\b\<close>,
  and is always used with \<open>re.IGNORECASE\<close>. The matcher lists, for a start position, the end
  positions of all ways to match in the order in which the backtracking search of \<open>re\<close> tries
  them; the match that \<open>re\<close> reports is the first one.
\<close>

datatype citem = C char | R char char | Digit | Space

datatype regex =
    Eps
  | Cls "citem list"
  | Seq regex regex
  | Alt regex regex
  | Opt regex
  | Rep "citem list" nat "nat option"
  | WordB

fun in_item :: "citem \<Rightarrow> char \<Rightarrow> bool" where
  "in_item (C x) c = (c = x)"
| "in_item (R lo hi) c = (lo \<le> c \<and> c \<le> hi)"
| "in_item Digit c = isdigit c"
| "in_item Space c = isspace c"

definition in_items :: "citem list \<Rightarrow> char \<Rightarrow> bool" where
  "in_items items c = list_ex (\<lambda>it. in_item it c) items"

definition str_upper_char :: "char \<Rightarrow> char" where
  \<comment> \<open>the code point below 256 whose lower case is \<open>c\<close>, if there is one\<close>
  "str_upper_char c =
     (if (CHR ''a'' \<le> c \<and> c \<le> CHR ''z'') \<or> (CHR 0xE0 \<le> c \<and> c \<le> CHR 0xFE \<and> c \<noteq> CHR 0xF7)
      then char_of (of_char c - (32::nat)) else c)"

definition cls_match :: "citem list \<Rightarrow> char \<Rightarrow> bool" where
  \<comment> \<open>membership in a class under \<open>re.IGNORECASE\<close>: some member of the class has the lower
      case of \<open>c\<close>\<close>
  "cls_match items c =
     (in_items items c \<or> in_items items (str_lower_char c) \<or> in_items items (str_upper_char c))"

definition word_boundary :: "string \<Rightarrow> nat \<Rightarrow> bool" where
  "word_boundary s i =
     ((0 < i \<and> i \<le> length s \<and> isword (s ! (i - 1))) \<noteq> (i < length s \<and> isword (s ! i)))"

fun run :: "citem list \<Rightarrow> string \<Rightarrow> nat" where
  \<comment> \<open>how many leading characters belong to the class\<close>
  "run items [] = 0"
| "run items (c # cs) = (if cls_match items c then Suc (run items cs) else 0)"

fun ends :: "regex \<Rightarrow> string \<Rightarrow> nat \<Rightarrow> nat list" where
  "ends Eps s i = [i]"
| "ends (Cls items) s i = (if i < length s \<and> cls_match items (s ! i) then [Suc i] else [])"
| "ends (Seq a b) s i = concat (map (ends b s) (ends a s i))"
| "ends (Alt a b) s i = ends a s i @ ends b s i"
| "ends (Opt a) s i = ends a s i @ [i]"
| "ends (Rep items m n) s i =
     (let avail = run items (drop i s);
          k = (case n of None \<Rightarrow> avail | Some mx \<Rightarrow> min mx avail)
      in if k < m then [] else map (\<lambda>d. i + d) (rev [m..<Suc k]))"
| "ends WordB s i = (if word_boundary s i then [i] else [])"

function finditer_from :: "regex \<Rightarrow> string \<Rightarrow> nat \<Rightarrow> (nat \<times> nat) list" where
  \<comment> \<open>the spans \<open>(start, end)\<close> of \<open>re.finditer\<close>, scanning from position \<open>i\<close>; no pattern of
      the catalogue matches the empty string, so the step after an empty match is never taken\<close>
  "finditer_from r s i =
     (if length s < i then []
      else (case ends r s i of
              [] \<Rightarrow> finditer_from r s (Suc i)
            | j # _ \<Rightarrow> (i, j) # finditer_from r s (if i < j then j else Suc i)))"
  by pat_completeness auto
termination
  by (relation "measure (\<lambda>(r, s, i). Suc (length s) - i)") auto

definition finditer :: "regex \<Rightarrow> string \<Rightarrow> (nat \<times> nat) list" where
  "finditer r s = finditer_from r s 0"

definition group :: "string \<Rightarrow> nat \<times> nat \<Rightarrow> string" where
  \<comment> \<open>\<open>match.group()\<close>\<close>
  "group s m = take (snd m - fst m) (drop (fst m) s)"

fun seq :: "regex list \<Rightarrow> regex" where
  "seq [] = Eps"
| "seq [r] = r"
| "seq (r # rs) = Seq r (seq rs)"

fun alt :: "regex list \<Rightarrow> regex" where
  "alt [] = Eps"
| "alt [r] = r"
| "alt (r # rs) = Alt r (alt rs)"

definition chr :: "char \<Rightarrow> regex" where
  "chr c = Cls [C c]"

definition lit :: "string \<Rightarrow> regex" where
  "lit w = seq (map chr w)"

definition plus :: "citem list \<Rightarrow> regex" where
  "plus items = Rep items 1 None"

definition times :: "citem list \<Rightarrow> nat \<Rightarrow> regex" where
  "times items n = Rep items n (Some n)"

section \<open>PII detection and masking\<close>

definition email_pattern :: regex where
  \<comment> \<open>\<open>\\b[A-Za-z0-9._%+-]+@[A-Za-z0-9.-]+\\.[A-Z|a-z]{2,}\\b\<close>\<close>
  "email_pattern =
     seq [WordB,
          plus [R CHR ''A'' CHR ''Z'', R CHR ''a'' CHR ''z'', R CHR ''0'' CHR ''9'',
                C CHR ''.'', C CHR ''_'', C CHR ''%'', C CHR ''+'', C CHR ''-''],
          chr CHR ''@'',
          plus [R CHR ''A'' CHR ''Z'', R CHR ''a'' CHR ''z'', R CHR ''0'' CHR ''9'',
                C CHR ''.'', C CHR ''-''],
          chr CHR ''.'',
          Rep [R CHR ''A'' CHR ''Z'', C CHR ''|'', R CHR ''a'' CHR ''z''] 2 None,
          WordB]"

definition phone_pattern :: regex where
  \<comment> \<open>\<open>(\\+?1[-.\\s]?)?\\(?([0-9]{3})\\)?[-.\\s]?([0-9]{3})[-.\\s]?([0-9]{4})\<close>\<close>
  "phone_pattern =
     seq [Opt (seq [Opt (chr CHR ''+''), chr CHR ''1'', Opt (Cls [C CHR ''-'', C CHR ''.'', Space])]),
          Opt (chr CHR ''(''),
          times [R CHR ''0'' CHR ''9''] 3,
          Opt (chr CHR '')''),
          Opt (Cls [C CHR ''-'', C CHR ''.'', Space]),
          times [R CHR ''0'' CHR ''9''] 3,
          Opt (Cls [C CHR ''-'', C CHR ''.'', Space]),
          times [R CHR ''0'' CHR ''9''] 4]"

definition ssn_pattern :: regex where
  \<comment> \<open>\<open>\\b\\d{3}-\\d{2}-\\d{4}\\b\<close>\<close>
  "ssn_pattern =
     seq [WordB, times [Digit] 3, chr CHR ''-'', times [Digit] 2, chr CHR ''-'', times [Digit] 4,
          WordB]"

definition credit_card_pattern :: regex where
  \<comment> \<open>\<open>\\b\\d{4}[-\\s]?\\d{4}[-\\s]?\\d{4}[-\\s]?\\d{4}\\b\<close>\<close>
  "credit_card_pattern =
     seq [WordB, times [Digit] 4, Opt (Cls [C CHR ''-'', Space]), times [Digit] 4,
          Opt (Cls [C CHR ''-'', Space]), times [Digit] 4, Opt (Cls [C CHR ''-'', Space]),
          times [Digit] 4, WordB]"

definition address_pattern :: regex where
  \<comment> \<open>\<open>\\b\\d+\\s+[A-Za-z\\s]+(?:Street|St|Avenue|Ave|Road|Rd|Boulevard|Blvd|Lane|Ln|Drive|Dr)\\b\<close>\<close>
  "address_pattern =
     seq [WordB, plus [Digit], plus [Space],
          plus [R CHR ''A'' CHR ''Z'', R CHR ''a'' CHR ''z'', Space],
          alt [lit ''Street'', lit ''St'', lit ''Avenue'', lit ''Ave'', lit ''Road'', lit ''Rd'',
               lit ''Boulevard'', lit ''Blvd'', lit ''Lane'', lit ''Ln'', lit ''Drive'', lit ''Dr''],
          WordB]"

definition name_pattern :: regex where
  \<comment> \<open>\<open>\\b[A-Z][a-z]+\\s+[A-Z][a-z]+\\b\<close>\<close>
  "name_pattern =
     seq [WordB, Cls [R CHR ''A'' CHR ''Z''], plus [R CHR ''a'' CHR ''z''], plus [Space],
          Cls [R CHR ''A'' CHR ''Z''], plus [R CHR ''a'' CHR ''z''], WordB]"

definition pii_patterns :: "(string \<times> regex) list" where
  \<comment> \<open>the dict literal, in insertion order\<close>
  "pii_patterns =
     [(''email'', email_pattern), (''phone'', phone_pattern), (''ssn'', ssn_pattern),
      (''credit_card'', credit_card_pattern), (''address'', address_pattern),
      (''name'', name_pattern)]"

definition calculate_confidence :: "string \<Rightarrow> string \<Rightarrow> real" where
  "calculate_confidence val t =
     dict_get [(''email'', 95 / 100), (''phone'', 90 / 100), (''ssn'', 98 / 100),
               (''credit_card'', 85 / 100), (''address'', 75 / 100), (''name'', 60 / 100)] t (5 / 10)"

definition item :: "'a list \<Rightarrow> int \<Rightarrow> py_error + 'a" where
  \<comment> \<open>\<open>xs[i]\<close>, which raises \<open>IndexError\<close> out of range\<close>
  "item xs i =
     (if 0 \<le> i \<and> i < int (length xs) then Inr (xs ! nat i)
      else if i < 0 \<and> - i \<le> int (length xs) then Inr (xs ! nat (int (length xs) + i))
      else Inl IndexError)"

definition bind_err :: "py_error + 'a \<Rightarrow> ('a \<Rightarrow> py_error + 'b) \<Rightarrow> py_error + 'b" where
  \<comment> \<open>an exception ends the computation, a value goes on to the next statement\<close>
  "bind_err x f = (case x of Inl e \<Rightarrow> Inl e | Inr v \<Rightarrow> f v)"

definition mask_value :: "string \<Rightarrow> string \<Rightarrow> py_error + string" where
  "mask_value val t =
     (if t = ''email'' then
        (let parts = split_on CHR ''@'' val in
         bind_err (item parts 0) (\<lambda>p0.
         bind_err (item parts 1) (\<lambda>p1.
           Inr (slice p0 None (Some 2) @ ''***@'' @ p1))))
      else if t = ''phone'' then Inr (''***-***-'' @ slice val (Some (- 4)) None)
      else if t = ''ssn'' then Inr (''***-**-'' @ slice val (Some (- 4)) None)
      else if t = ''credit_card'' then Inr (''****-****-****-'' @ slice val (Some (- 4)) None)
      else if t = ''address'' then
        bind_err (item (split_ws val) (- 1)) (\<lambda>w. Inr (''*** '' @ w))
      else if t = ''name'' then
        (let parts = split_ws val in
         bind_err (item parts 0) (\<lambda>p0.
         bind_err (item p0 0) (\<lambda>a.
         bind_err (item parts 1) (\<lambda>p1.
         bind_err (item p1 0) (\<lambda>b.
           Inr ([a] @ ''*** '' @ [b] @ ''***''))))))
      else Inr ''***'')"

fun collect :: "('a \<Rightarrow> py_error + 'b) \<Rightarrow> 'a list \<Rightarrow> py_error + 'b list" where
  \<comment> \<open>a loop that appends one result for each element and stops at the first exception\<close>
  "collect f [] = Inr []"
| "collect f (x # xs) = bind_err (f x) (\<lambda>y. bind_err (collect f xs) (\<lambda>ys. Inr (y # ys)))"

definition detection :: "string \<Rightarrow> string \<Rightarrow> nat \<times> nat \<Rightarrow> py_error + PIIDetection" where
  "detection text t m =
     bind_err (mask_value (group text m) t) (\<lambda>masked.
       Inr \<lparr>pii_type = t, pii_value = group text m, pii_position = fst m,
            pii_confidence = calculate_confidence (group text m) t, pii_masked_value = masked\<rparr>)"

definition detect_pii :: "string \<Rightarrow> py_error + PIIDetection list" where
  "detect_pii text =
     bind_err (collect (\<lambda>(t, pattern). collect (detection text t) (finditer pattern text)) pii_patterns)
       (\<lambda>dss. Inr (concat dss))"

definition splice :: "string \<Rightarrow> PIIDetection \<Rightarrow> string" where
  \<comment> \<open>one step of the loop of \<open>mask_text\<close>\<close>
  "splice masked_text d =
     take (pii_position d) masked_text @ pii_masked_value d
       @ drop (pii_position d + length (pii_value d)) masked_text"

definition mask_text :: "string \<Rightarrow> py_error + string \<times> PIIDetection list" where
  \<comment> \<open>\<open>sorted(detections, key=position, reverse=True)\<close> is stable, as is \<^const>\<open>sort_key\<close>\<close>
  "mask_text text =
     bind_err (detect_pii text) (\<lambda>detections.
       Inr (foldl splice text (sort_key (\<lambda>d. - int (pii_position d)) detections), detections))"

section \<open>Governance store\<close>

text \<open>
  \<open>GovernanceTools\<close> holds the policies, the registered agent purposes, the default boundaries
  and the enforcement log. A dict whose order of insertion is visible (\<open>policies.values()\<close>) is
  a list of items; the values of the boundary dict are integers and lists of strings, and the
  setters accept any value. An operation that reads \<open>time.time()\<close> takes the reading as its
  argument \<open>now\<close>; \<open>__init__\<close> reads the clock six times and takes the readings as \<open>clock 0\<close>
  to \<open>clock 5\<close>. The argument \<open>context\<close> of \<open>check_authorization\<close> is passed on to the
  checks, which never read it, and is left out. \<open>update_policy\<close>, which assigns attributes by
  name, is not modelled.
\<close>

datatype py_value = IntV int | StrV string | ListV "string list"

record GovernancePolicy =
  policy_id :: string
  policy_name :: string
  policy_category :: string
  policy_description :: string
  rules :: "string list"
  boundaries :: "string list"
  enforcement_level :: string
  policy_created_at :: real
  policy_updated_at :: real

record AgentPurpose =
  purpose_agent_id :: string
  purpose_name :: string
  primary_purpose :: string
  authorized_use_cases :: "string list"
  prohibited_use_cases :: "string list"
  capabilities :: "string list"
  limitations :: "string list"
  purpose_boundaries :: "(string \<times> py_value) list"
  purpose_created_at :: real

record EnforcementLogEntry =
  log_timestamp :: real
  log_agent_id :: string
  log_action :: string
  log_authorized :: bool
  log_reason :: string

record AuthorizationResult =
  authorized :: bool
  reason :: string
  recommendation :: string

record GovernanceTools =
  policies :: "(string \<times> GovernancePolicy) list"
  agent_purposes :: "(string \<times> AgentPurpose) list"
  enforcement_log :: "EnforcementLogEntry list"
  default_behaviors :: "(string \<times> py_value) list"
  default_boundaries :: "(string \<times> py_value) list"

definition dict_set :: "('k \<times> 'v) list \<Rightarrow> 'k \<Rightarrow> 'v \<Rightarrow> ('k \<times> 'v) list" where
  \<comment> \<open>\<open>d[k] = v\<close>: an existing key keeps its place, a new key goes to the end\<close>
  "dict_set d k v = AList.update k v d"

definition security_policy :: "(nat \<Rightarrow> real) \<Rightarrow> GovernancePolicy" where
  "security_policy clock =
     \<lparr>policy_id = ''security_001'',
      policy_name = (''Politique de S'' @ [CHR 0xE9] @ ''curit'' @ [CHR 0xE9]),
      policy_category = ''security'',
      policy_description = (''Politique de s'' @ [CHR 0xE9] @ ''curit'' @ [CHR 0xE9] @ '' pour la protection des donn'' @ [CHR 0xE9] @ ''es et des utilisateurs''),
      rules =
        [''Ne jamais exposer d'informations sensibles'',
         (''Toujours valider les entr'' @ [CHR 0xE9] @ ''es utilisateur''),
         (''Utiliser des connexions s'' @ [CHR 0xE9] @ ''curis'' @ [CHR 0xE9] @ ''es uniquement''),
         (''Chiffrer les donn'' @ [CHR 0xE9] @ ''es sensibles en transit et au repos'')],
      boundaries =
        [(''Acc'' @ [CHR 0xE8] @ ''s limit'' @ [CHR 0xE9] @ '' aux donn'' @ [CHR 0xE9] @ ''es autoris'' @ [CHR 0xE9] @ ''es uniquement''),
         (''Aucun acc'' @ [CHR 0xE8] @ ''s aux syst'' @ [CHR 0xE8] @ ''mes de production sans autorisation''),
         ''Audit obligatoire de toutes les actions sensibles''],
      enforcement_level = ''critical'',
      policy_created_at = clock 0,
      policy_updated_at = clock 1\<rparr>"

definition compliance_policy :: "(nat \<Rightarrow> real) \<Rightarrow> GovernancePolicy" where
  "compliance_policy clock =
     \<lparr>policy_id = ''compliance_001'',
      policy_name = (''Politique de Conformit'' @ [CHR 0xE9]),
      policy_category = ''compliance'',
      policy_description = (''Politique de conformit'' @ [CHR 0xE9] @ '' pour respecter les r'' @ [CHR 0xE9] @ ''glementations''),
      rules =
        [(''Respecter le RGPD pour les donn'' @ [CHR 0xE9] @ ''es personnelles''),
         ''Respecter les lois locales et internationales'',
         (''Maintenir la tra'' @ [CHR 0xE7] @ ''abilit'' @ [CHR 0xE9] @ '' des actions''),
         (''Signaler les violations de conformit'' @ [CHR 0xE9])],
      boundaries =
        [(''Aucune utilisation de donn'' @ [CHR 0xE9] @ ''es sans consentement''),
         (''Respect des d'' @ [CHR 0xE9] @ ''lais de r'' @ [CHR 0xE9] @ ''tention des donn'' @ [CHR 0xE9] @ ''es''),
         ''Notification obligatoire des violations''],
      enforcement_level = ''high'',
      policy_created_at = clock 2,
      policy_updated_at = clock 3\<rparr>"

definition quality_policy :: "(nat \<Rightarrow> real) \<Rightarrow> GovernancePolicy" where
  "quality_policy clock =
     \<lparr>policy_id = ''quality_001'',
      policy_name = (''Politique de Qualit'' @ [CHR 0xE9]),
      policy_category = ''quality'',
      policy_description = (''Politique de qualit'' @ [CHR 0xE9] @ '' pour maintenir l'excellence des services''),
      rules =
        [(''Fournir des r'' @ [CHR 0xE9] @ ''ponses pr'' @ [CHR 0xE9] @ ''cises et v'' @ [CHR 0xE9] @ ''rifi'' @ [CHR 0xE9] @ ''es''),
         ''Admettre les limitations et incertitudes'',
         (''Citer les sources quand appropri'' @ [CHR 0xE9]),
         ''Maintenir un niveau de service constant''],
      boundaries =
        [''Ne jamais inventer d'informations'',
         (''Limiter les r'' @ [CHR 0xE9] @ ''ponses aux domaines d'expertise''),
         ''Escalader les questions complexes''],
      enforcement_level = ''medium'',
      policy_created_at = clock 4,
      policy_updated_at = clock 5\<rparr>"

definition GovernanceTools_init :: "(nat \<Rightarrow> real) \<Rightarrow> GovernanceTools" where
  \<comment> \<open>\<open>__init__\<close> followed by \<open>_initialize_default_policies\<close>\<close>
  "GovernanceTools_init clock =
     \<lparr>policies =
        [(policy_id (security_policy clock), security_policy clock),
         (policy_id (compliance_policy clock), compliance_policy clock),
         (policy_id (quality_policy clock), quality_policy clock)],
      agent_purposes = [],
      enforcement_log = [],
      default_behaviors =
        [(''response_style'', StrV ''professional''), (''safety_level'', StrV ''high''),
         (''transparency'', StrV ''full''), (''accountability'', StrV ''enabled''),
         (''audit_trail'', StrV ''enabled'')],
      default_boundaries =
        [(''max_response_length'', IntV 5000), (''max_processing_time'', IntV 30),
         (''max_api_calls'', IntV 10), (''max_file_size'', IntV 10),
         (''allowed_domains'', ListV [''*'']),
         (''prohibited_content'', ListV [''illegal'', ''harmful'', ''discriminatory''])]\<rparr>"

definition define_agent_purpose ::
  "GovernanceTools \<Rightarrow> real \<Rightarrow> string \<Rightarrow> string \<Rightarrow> string \<Rightarrow> string list \<Rightarrow> string list option
     \<Rightarrow> string list option \<Rightarrow> string list option \<Rightarrow> AgentPurpose \<times> GovernanceTools" where
  "define_agent_purpose g now agent_id name purpose authorized_cases prohibited_cases caps lims =
     (let orempty = (\<lambda>x. case x of None \<Rightarrow> [] | Some xs \<Rightarrow> xs);
          p = \<lparr>purpose_agent_id = agent_id, purpose_name = name, primary_purpose = purpose,
               authorized_use_cases = authorized_cases,
               prohibited_use_cases = orempty prohibited_cases,
               capabilities = orempty caps, limitations = orempty lims,
               purpose_boundaries = default_boundaries g, purpose_created_at = now\<rparr>
      in (p, g\<lparr>agent_purposes := dict_set (agent_purposes g) agent_id p\<rparr>))"

definition set_default_behavior :: "GovernanceTools \<Rightarrow> string \<Rightarrow> py_value \<Rightarrow> GovernanceTools" where
  "set_default_behavior g behavior_type v =
     (if map_of (default_behaviors g) behavior_type \<noteq> None
      then g\<lparr>default_behaviors := dict_set (default_behaviors g) behavior_type v\<rparr> else g)"

definition set_boundary :: "GovernanceTools \<Rightarrow> string \<Rightarrow> py_value \<Rightarrow> GovernanceTools" where
  "set_boundary g boundary_type v =
     (if map_of (default_boundaries g) boundary_type \<noteq> None
      then g\<lparr>default_boundaries := dict_set (default_boundaries g) boundary_type v\<rparr> else g)"

definition add_policy :: "GovernanceTools \<Rightarrow> GovernancePolicy \<Rightarrow> GovernanceTools" where
  "add_policy g policy = g\<lparr>policies := dict_set (policies g) (policy_id policy) policy\<rparr>"

definition str_strip :: "string \<Rightarrow> string" where
  \<comment> \<open>\<open>s.strip()\<close>\<close>
  "str_strip s = rev (dropWhile isspace (rev (dropWhile isspace s)))"

definition is_valid_input :: "string \<Rightarrow> bool" where
  "is_valid_input input_text =
     (if input_text = [] \<or> length (str_strip input_text) = 0 then False
      else if length input_text > 10000 then False
      else True)"

definition check_rule_violation :: "string \<Rightarrow> string \<Rightarrow> bool" where
  "check_rule_violation rule action =
     (let rule_lower = str_lower rule; action_lower = str_lower action in
      if contains rule_lower ''ne jamais'' \<and> contains rule_lower ''exposer''
      then contains action_lower ''password'' \<or> contains action_lower ''secret''
      else if contains rule_lower ''toujours valider'' then \<not> is_valid_input action
      else False)"

definition check_boundary_violation :: "string \<Rightarrow> string \<Rightarrow> bool" where
  "check_boundary_violation boundary action =
     (let boundary_lower = str_lower boundary; action_lower = str_lower action in
      if contains boundary_lower (''acc'' @ [CHR 0xE8] @ ''s limit'' @ [CHR 0xE9])
      then contains action_lower ''admin'' \<or> contains action_lower ''root''
      else if contains boundary_lower (''aucun acc'' @ [CHR 0xE8] @ ''s'')
      then contains action_lower ''production'' \<or> contains action_lower (''syst'' @ [CHR 0xE8] @ ''me'')
      else False)"

definition check_policy_violation :: "GovernancePolicy \<Rightarrow> string \<Rightarrow> bool" where
  \<comment> \<open>the two loops return at the first rule, then the first boundary, that is violated\<close>
  "check_policy_violation policy action =
     (list_ex (\<lambda>rule. check_rule_violation rule action) (rules policy)
      \<or> list_ex (\<lambda>boundary. check_boundary_violation boundary action) (boundaries policy))"

definition log_enforcement ::
  "GovernanceTools \<Rightarrow> real \<Rightarrow> string \<Rightarrow> string \<Rightarrow> bool \<Rightarrow> string \<Rightarrow> GovernanceTools" where
  "log_enforcement g now agent_id action auth why =
     (let log_entry = \<lparr>log_timestamp = now, log_agent_id = agent_id, log_action = action,
                       log_authorized = auth, log_reason = why\<rparr>;
          appended = enforcement_log g @ [log_entry]
      in g\<lparr>enforcement_log :=
              (if length appended > 1000 then slice appended (Some (- 1000)) None else appended)\<rparr>)"

definition exceeds :: "nat \<Rightarrow> py_value \<Rightarrow> py_error + bool" where
  \<comment> \<open>\<open>n > v\<close> for an integer \<open>n\<close>: Python compares numbers and raises \<open>TypeError\<close> otherwise\<close>
  "exceeds n v = (case v of IntV m \<Rightarrow> Inr (int n > m) | StrV _ \<Rightarrow> Inl TypeError | ListV _ \<Rightarrow> Inl TypeError)"

definition check_authorization ::
  "GovernanceTools \<Rightarrow> real \<Rightarrow> string \<Rightarrow> string \<Rightarrow> py_error + AuthorizationResult \<times> GovernanceTools" where
  "check_authorization g now agent_id action =
     (case map_of (agent_purposes g) agent_id of
        None \<Rightarrow>
          Inr (\<lparr>authorized = False, reason = (''Agent non enregistr'' @ [CHR 0xE9]),
                recommendation = ''Enregistrer l'agent avec define_agent_purpose''\<rparr>, g)
      | Some purpose \<Rightarrow>
          (case find (\<lambda>prohibited. contains (str_lower action) (str_lower prohibited))
                     (prohibited_use_cases purpose) of
             Some prohibited \<Rightarrow>
               Inr (\<lparr>authorized = False, reason = ''Cas d'usage interdit: '' @ prohibited,
                     recommendation = (''Utiliser un cas d'usage autoris'' @ [CHR 0xE9])\<rparr>,
                    log_enforcement g now agent_id action False (''Cas d'usage interdit: '' @ prohibited))
           | None \<Rightarrow>
               bind_err (case map_of (default_boundaries g) ''max_response_length'' of
                           None \<Rightarrow> Inr False
                         | Some v \<Rightarrow> exceeds (length action) v)
                 (\<lambda>too_long.
                    if too_long then
                      Inr (\<lparr>authorized = False, reason = (''D'' @ [CHR 0xE9] @ ''passement de la limite de longueur de r'' @ [CHR 0xE9] @ ''ponse''),
                            recommendation = (''R'' @ [CHR 0xE9] @ ''duire la longueur de la requ'' @ [CHR 0xEA] @ ''te'')\<rparr>,
                           log_enforcement g now agent_id action False (''D'' @ [CHR 0xE9] @ ''passement de la limite de longueur''))
                    else
                      (case find (\<lambda>policy. check_policy_violation policy action)
                                 (map snd (policies g)) of
                         Some policy \<Rightarrow>
                           Inr (\<lparr>authorized = False,
                                 reason = ''Violation de la politique: '' @ policy_name policy,
                                 recommendation = (''Respecter les r'' @ [CHR 0xE8] @ ''gles de la politique'')\<rparr>,
                                log_enforcement g now agent_id action False
                                  (''Violation de politique: '' @ policy_name policy))
                       | None \<Rightarrow>
                           Inr (\<lparr>authorized = True, reason = ''Action conforme aux politiques'',
                                 recommendation = (''Continuer l'ex'' @ [CHR 0xE9] @ ''cution'')\<rparr>,
                                log_enforcement g now agent_id action True (''Action autoris'' @ [CHR 0xE9] @ ''e''))))))"


section \<open>Performance tracker\<close>

text \<open>
  \<open>PerformanceTools\<close>: the dicts \<open>cost_tracking\<close>, \<open>loop_detection\<close> and \<open>cost_rates\<close> have fixed
  keys and are flattened into the fields of the state. A call record keeps the arguments of the
  call; the detector reads them only through \<open>hash(str(args))\<close>, which is the parameter \<open>h\<close>
  (the hash of a string differs from one process to the next). The keys that \<open>end_task\<close> adds
  to a task are optional fields.
\<close>

record Intervention =
  iv_id :: nat
  iv_reason :: string
  iv_task_id :: "string option"
  iv_timestamp :: real
  iv_step_count :: nat
  iv_cost_so_far :: real

record Step =
  step_number :: nat
  step_description :: string
  step_type :: string
  step_timestamp :: real
  step_cost :: real

record Task =
  task_description :: "string option"
  start_time :: real
  steps :: "Step list"
  interventions :: int
  task_cost :: real
  end_time :: "real option"
  duration :: "real option"
  success :: "bool option"
  total_steps :: "nat option"
  total_cost :: "real option"

record Metrics =
  m_task_id :: string
  m_total_steps :: nat
  m_duration :: real
  m_success :: bool
  m_cost :: real
  m_interventions :: int
  m_steps_per_minute :: real

record 'a CallRecord =
  call_function :: string
  call_args :: 'a
  call_timestamp :: real

record 'a PerformanceTools =
  human_interventions :: "Intervention list"
  intervention_count :: nat
  task_steps :: "(string \<times> Task) list"
  current_task_id :: "string option"
  step_count :: nat
  api_calls :: int
  tokens_used :: int
  storage_used :: real
  compute_time :: real
  call_history :: "'a CallRecord list"
  max_calls :: int
  timeout_threshold :: real
  pattern_detection :: bool
  rate_api_call :: real
  rate_token :: real
  rate_storage_mb :: real
  rate_compute_second :: real

definition PerformanceTools_init :: "'a PerformanceTools" where
  "PerformanceTools_init =
     \<lparr>human_interventions = [], intervention_count = 0, task_steps = [], current_task_id = None,
      step_count = 0, api_calls = 0, tokens_used = 0, storage_used = 0, compute_time = 0,
      call_history = [], max_calls = 100, timeout_threshold = 30, pattern_detection = True,
      rate_api_call = 1 / 1000, rate_token = 1 / 10000, rate_storage_mb = 1 / 100,
      rate_compute_second = 5 / 100\<rparr>"

definition get_total_cost :: "'a PerformanceTools \<Rightarrow> real" where
  "get_total_cost s =
     (let api_cost = real_of_int (api_calls s) * rate_api_call s;
          token_cost = real_of_int (tokens_used s) * rate_token s;
          storage_cost = storage_used s * rate_storage_mb s;
          compute_cost = compute_time s * rate_compute_second s
      in api_cost + token_cost + storage_cost + compute_cost)"

definition truthy :: "string option \<Rightarrow> bool" where
  \<comment> \<open>the truth value of an optional string: \<open>None\<close> and the empty string are false\<close>
  "truthy x = (case x of None \<Rightarrow> False | Some v \<Rightarrow> v \<noteq> [])"

definition track_human_intervention ::
  "'a PerformanceTools \<Rightarrow> real \<Rightarrow> string \<Rightarrow> string option \<Rightarrow> 'a PerformanceTools" where
  "track_human_intervention s now why task_id =
     (let intervention =
            \<lparr>iv_id = length (human_interventions s) + 1, iv_reason = why,
             iv_task_id = (if truthy task_id then task_id else current_task_id s),
             iv_timestamp = now, iv_step_count = step_count s, iv_cost_so_far = get_total_cost s\<rparr>
      in s\<lparr>human_interventions := human_interventions s @ [intervention],
            intervention_count := intervention_count s + 1\<rparr>)"

definition start_task :: "'a PerformanceTools \<Rightarrow> real \<Rightarrow> string \<Rightarrow> string option \<Rightarrow> 'a PerformanceTools" where
  "start_task s now task_id description =
     s\<lparr>current_task_id := Some task_id, step_count := 0,
       task_steps := dict_set (task_steps s) task_id
         \<lparr>task_description = description, start_time = now, steps = [], interventions = 0,
          task_cost = 0, end_time = None, duration = None, success = None, total_steps = None,
          total_cost = None\<rparr>\<rparr>"

definition dict_item :: "('k \<times> 'v) list \<Rightarrow> 'k \<Rightarrow> py_error + 'v" where
  \<comment> \<open>\<open>d[k]\<close>, which raises \<open>KeyError\<close> for a missing key\<close>
  "dict_item d k = (case map_of d k of None \<Rightarrow> Inl KeyError | Some v \<Rightarrow> Inr v)"

definition add_step ::
  "'a PerformanceTools \<Rightarrow> real \<Rightarrow> string \<Rightarrow> string \<Rightarrow> py_error + 'a PerformanceTools" where
  "add_step s now step_desc kind =
     (case current_task_id s of
        None \<Rightarrow> Inr s
      | Some cur \<Rightarrow>
          if cur = [] then Inr s
          else
            (let step = \<lparr>step_number = step_count s + 1, step_description = step_desc,
                         step_type = kind, step_timestamp = now, step_cost = 0\<rparr>
             in bind_err (dict_item (task_steps s) cur) (\<lambda>task.
                  Inr (s\<lparr>task_steps := dict_set (task_steps s) cur (task\<lparr>steps := steps task @ [step]\<rparr>),
                         step_count := step_count s + 1\<rparr>))))"

definition end_task ::
  "'a PerformanceTools \<Rightarrow> real \<Rightarrow> bool \<Rightarrow> py_error + Metrics option \<times> 'a PerformanceTools" where
  \<comment> \<open>the empty dict that is returned when no task is current is \<open>None\<close>\<close>
  "end_task s now ok =
     (case current_task_id s of
        None \<Rightarrow> Inr (None, s)
      | Some cur \<Rightarrow>
          if cur = [] then Inr (None, s)
          else
            bind_err (dict_item (task_steps s) cur) (\<lambda>task0.
              let d = now - start_time task0;
                  n = length (steps task0);
                  task = task0\<lparr>end_time := Some now, duration := Some d, success := Some ok,
                               total_steps := Some n, total_cost := Some (get_total_cost s)\<rparr>;
                  metrics = \<lparr>m_task_id = cur, m_total_steps = n, m_duration = d, m_success = ok,
                             m_cost = get_total_cost s, m_interventions = interventions task,
                             m_steps_per_minute = (if d > 0 then real n / (d / 60) else 0)\<rparr>
              in Inr (Some metrics,
                      s\<lparr>task_steps := dict_set (task_steps s) cur task, current_task_id := None,
                        step_count := 0\<rparr>)))"

definition track_api_call :: "'a PerformanceTools \<Rightarrow> int \<Rightarrow> string \<Rightarrow> 'a PerformanceTools" where
  "track_api_call s tokens call_type =
     s\<lparr>api_calls := api_calls s + 1, tokens_used := tokens_used s + tokens,
       compute_time := compute_time s + 1 / 10\<rparr>"

definition track_storage :: "'a PerformanceTools \<Rightarrow> real \<Rightarrow> 'a PerformanceTools" where
  "track_storage s size_mb = s\<lparr>storage_used := storage_used s + size_mb\<rparr>"

definition track_compute_time :: "'a PerformanceTools \<Rightarrow> real \<Rightarrow> 'a PerformanceTools" where
  "track_compute_time s duration_seconds = s\<lparr>compute_time := compute_time s + duration_seconds\<rparr>"

subsection \<open>Loop detection\<close>

definition digit_char :: "nat \<Rightarrow> char" where
  "digit_char d = char_of (48 + d)"

fun str_nat :: "nat \<Rightarrow> string" where
  "str_nat n = (if n < 10 then [digit_char n] else str_nat (n div 10) @ [digit_char (n mod 10)])"

definition str_int :: "int \<Rightarrow> string" where
  \<comment> \<open>the decimal text of an integer in an f-string\<close>
  "str_int i = (if i < 0 then CHR ''-'' # str_nat (nat (- i)) else str_nat (nat i))"

definition call_key :: "('a \<Rightarrow> int) \<Rightarrow> 'a CallRecord \<Rightarrow> string" where
  "call_key h c = call_function c @ ''_'' @ str_int (h (call_args c))"

definition function_counts :: "string list \<Rightarrow> (string \<times> int) list" where
  "function_counts keys = foldl (\<lambda>d k. dict_set d k (dict_get d k 0 + 1)) [] keys"

definition py_max :: "int list \<Rightarrow> py_error + int" where
  \<comment> \<open>\<open>max\<close> of a sequence, which raises \<open>ValueError\<close> when it is empty\<close>
  "py_max xs = (case xs of [] \<Rightarrow> Inl ValueError | x # rest \<Rightarrow> Inr (foldl max x rest))"

definition detect_infinite_loop ::
  "('a \<Rightarrow> int) \<Rightarrow> 'a PerformanceTools \<Rightarrow> real \<Rightarrow> string \<Rightarrow> 'a
     \<Rightarrow> py_error + bool \<times> 'a PerformanceTools" where
  "detect_infinite_loop h s current_time function_name args =
     (let call = \<lparr>call_function = function_name, call_args = args, call_timestamp = current_time\<rparr>;
          appended = call_history s @ [call];
          history = (if int (length appended) > max_calls s
                     then slice appended (Some (- max_calls s)) None else appended);
          s' = s\<lparr>call_history := history\<rparr>;
          recent_calls = slice history (Some (- 10)) None
      in bind_err
           (if pattern_detection s \<and> length recent_calls \<ge> 5
            then bind_err (py_max (map snd (function_counts (map (call_key h) recent_calls))))
                   (\<lambda>most. Inr (most > 3))
            else Inr False)
           (\<lambda>repeated.
              if repeated then Inr (True, s')
              else if length history > 1
                      \<and> current_time - call_timestamp (history ! 0) > timeout_threshold s
              then Inr (True, s')
              else Inr (False, s')))"

section \<open>Drift tracker\<close>

text \<open>
  \<open>QualityTools\<close> keeps one history for inputs and one for outputs. \<open>np.mean\<close> of an empty list
  is NaN: a float that may be NaN is a \<^typ>\<open>real option\<close> with \<open>None\<close> for NaN, every
  comparison with NaN is false, and \<open>min(a, b)\<close> is \<open>b\<close> if \<open>b < a\<close> and \<open>a\<close> otherwise. The format
  \<open>{x:.2%}\<close> of the description is the parameter \<open>fmt\<close>. \<open>_calculate_input_drift\<close> and
  \<open>_calculate_output_drift\<close> have the same body, applied to their own history; the dict
  \<open>{'drift_detected': False}\<close> of a short history is \<open>None\<close>.
\<close>

record HistoryItem =
  h_text :: string
  h_timestamp :: real
  h_length :: nat
  h_word_count :: nat



definition np_mean :: "real list \<Rightarrow> real option" where
  "np_mean xs = (if xs = [] then None else Some (sum_list xs / real (length xs)))"








definition remember :: "int \<Rightarrow> HistoryItem list \<Rightarrow> real \<Rightarrow> string \<Rightarrow> HistoryItem list" where
  \<comment> \<open>the append and the truncation that open both detectors\<close>
  "remember bound history now text =
     (let appended = history @ [\<lparr>h_text = text, h_timestamp = now, h_length = length text,
                                 h_word_count = length (split_ws text)\<rparr>]
      in if int (length appended) > bound then slice appended (Some (- bound)) None else appended)"



section \<open>Notions used to state the properties\<close>

definition default_rates :: "'a PerformanceTools \<Rightarrow> bool" where
  "default_rates s = (rate_api_call s = 1 / 1000 \<and> rate_token s = 1 / 10000
                      \<and> rate_storage_mb s = 1 / 100 \<and> rate_compute_second s = 5 / 100)"

definition lastn :: "nat \<Rightarrow> 'a list \<Rightarrow> 'a list" where
  \<comment> \<open>the \<open>n\<close> most recent elements of a list that grows at its end, in their order\<close>
  "lastn n xs = drop (length xs - n) xs"

definition entry_of :: "real \<times> string \<times> string \<times> bool \<times> string \<Rightarrow> EnforcementLogEntry" where
  "entry_of e = (case e of (now, agent_id, action, auth, why) \<Rightarrow>
     \<lparr>log_timestamp = now, log_agent_id = agent_id, log_action = action, log_authorized = auth,
      log_reason = why\<rparr>)"

definition push_all ::
  "GovernanceTools \<Rightarrow> (real \<times> string \<times> string \<times> bool \<times> string) list \<Rightarrow> GovernanceTools" where
  \<comment> \<open>one call of \<open>_log_enforcement\<close> for each element\<close>
  "push_all g es = foldl (\<lambda>g' e. case e of (now, agent_id, action, auth, why) \<Rightarrow>
                                    log_enforcement g' now agent_id action auth why) g es"

fun run_checks :: "GovernanceTools \<Rightarrow> (real \<times> string \<times> string) list \<Rightarrow> GovernanceTools" where
  \<comment> \<open>a sequence of calls of \<open>check_authorization\<close>; a call that raises leaves the store as it was\<close>
  "run_checks g [] = g"
| "run_checks g ((now, agent_id, action) # calls) =
     run_checks (case check_authorization g now agent_id action of
                   Inl e \<Rightarrow> g | Inr (r, g') \<Rightarrow> g') calls"

datatype perf_op =
    Start_task real string "string option"
  | Add_step real string string
  | Track_human_intervention real string "string option"

fun apply_op :: "'a PerformanceTools \<Rightarrow> perf_op \<Rightarrow> py_error + 'a PerformanceTools" where
  "apply_op s (Start_task now task_id description) = Inr (start_task s now task_id description)"
| "apply_op s (Add_step now step_desc kind) = add_step s now step_desc kind"
| "apply_op s (Track_human_intervention now why task_id) = Inr (track_human_intervention s now why task_id)"

fun run_ops :: "'a PerformanceTools \<Rightarrow> perf_op list \<Rightarrow> py_error + 'a PerformanceTools" where
  \<comment> \<open>a sequence of calls on one tracker, which an exception would end\<close>
  "run_ops s [] = Inr s"
| "run_ops s (c # cs) = bind_err (apply_op s c) (\<lambda>s'. run_ops s' cs)"

fun is_intervention :: "perf_op \<Rightarrow> bool" where
  "is_intervention (Track_human_intervention now why task_id) = True"
| "is_intervention (Start_task now task_id description) = False"
| "is_intervention (Add_step now step_desc kind) = False"

definition tasks_untouched :: "'a PerformanceTools \<Rightarrow> bool" where
  \<comment> \<open>every task of the table has the \<open>interventions\<close> it was created with, and the current
      task is in the table\<close>
  "tasks_untouched s =
     ((\<forall>k t. map_of (task_steps s) k = Some t \<longrightarrow> interventions t = 0)
      \<and> (\<forall>cur. current_task_id s = Some cur \<and> cur \<noteq> [] \<longrightarrow> map_of (task_steps s) cur \<noteq> None))"



definition mean :: "real list \<Rightarrow> real" where
  "mean xs = sum_list xs / real (length xs)"






section \<open>Properties of the score functions\<close>

lemma sum_list_map_mset:
  fixes f :: "'a \<Rightarrow> int"
  assumes "mset xs = mset ys"
  shows "sum_list (map f xs) = sum_list (map f ys)"
proof -
  have "sum_list (map f xs) = sum_mset (image_mset f (mset xs))"
    by (metis mset_map sum_mset_sum_list)
  also have "\<dots> = sum_mset (image_mset f (mset ys))" using assms by simp
  also have "\<dots> = sum_list (map f ys)" by (metis mset_map sum_mset_sum_list)
  finally show ?thesis .
qed

lemma mset_eq_Nil_iff: "mset xs = mset ys \<Longrightarrow> (xs = []) = (ys = [])"
  by (metis mset_zero_iff)

lemma compliance_score_perm:
  "mset vs' = mset vs \<Longrightarrow> calculate_compliance_score vs' = calculate_compliance_score vs"
  using sum_list_map_mset[of vs' vs "\<lambda>v. dict_get compliance_penalties (cv_type v) 10"]
        mset_eq_Nil_iff[of vs' vs]
  by (simp add: calculate_compliance_score_def)

lemma quality_score_perm:
  "mset vs' = mset vs \<Longrightarrow> calculate_quality_score vs' = calculate_quality_score vs"
  using sum_list_map_mset[of vs' vs "\<lambda>v. dict_get quality_penalties (qi_type v) 10"]
        mset_eq_Nil_iff[of vs' vs]
  by (simp add: calculate_quality_score_def)

lemma security_score_perm:
  "mset vs' = mset vs \<Longrightarrow> calculate_security_score vs' = calculate_security_score vs"
  using sum_list_map_mset[of vs' vs "\<lambda>v. dict_get security_penalties (pii_type v) 10"]
        mset_eq_Nil_iff[of vs' vs]
  by (simp add: calculate_security_score_def)

lemma compliance_penalty_table:
  "dict_get compliance_penalties t 10 =
     (if t = ''jailbreak'' then 25 else if t = ''prompt_injection'' then 20
      else if t = ''financial_advice'' then 15 else if t = ''misuse'' then 40 else 10)"
  by (simp add: dict_get_def compliance_penalties_def)

lemma quality_penalty_table:
  "dict_get quality_penalties t 10 =
     (if t = ''hallucination'' then 20
      else if t \<in> {''bias_cultural'', ''bias_gender'', ''bias_social'', ''bias_age''} then 15
      else if t = ''input_drift'' then 10 else if t = ''output_drift'' then 15 else 10)"
  by (simp add: dict_get_def quality_penalties_def)

lemma security_penalty_table:
  "dict_get security_penalties t 10 =
     (if t = ''ssn'' then 30 else if t = ''credit_card'' then 25 else if t = ''address'' then 20
      else if t = ''email'' then 15 else if t = ''phone'' then 10 else if t = ''name'' then 5 else 10)"
  by (simp add: dict_get_def security_penalties_def)

text \<open>
  Claim C1. Each of the three score functions returns an integer between 0 and 100: it is 100
  for the empty list and \<open>max(0, 100 - sum of the penalties)\<close> otherwise, with the fixed tables
  (an unknown category costs 10), and it does not depend on the order of the findings.
\<close>

theorem score_functions_contract:
  "(0 \<le> calculate_compliance_score vs \<and> calculate_compliance_score vs \<le> 100
    \<and> calculate_compliance_score [] = 100
    \<and> calculate_compliance_score vs
        = max 0 (100 - (\<Sum>v\<leftarrow>vs. if cv_type v = ''jailbreak'' then 25
                              else if cv_type v = ''prompt_injection'' then 20
                              else if cv_type v = ''financial_advice'' then 15
                              else if cv_type v = ''misuse'' then 40 else 10))
    \<and> (\<forall>vs'. mset vs' = mset vs \<longrightarrow> calculate_compliance_score vs' = calculate_compliance_score vs))
   \<and> (0 \<le> calculate_quality_score qs \<and> calculate_quality_score qs \<le> 100
    \<and> calculate_quality_score [] = 100
    \<and> calculate_quality_score qs
        = max 0 (100 - (\<Sum>i\<leftarrow>qs. if qi_type i = ''hallucination'' then 20
                              else if qi_type i \<in> {''bias_cultural'', ''bias_gender'',
                                                    ''bias_social'', ''bias_age''} then 15
                              else if qi_type i = ''input_drift'' then 10
                              else if qi_type i = ''output_drift'' then 15 else 10))
    \<and> (\<forall>qs'. mset qs' = mset qs \<longrightarrow> calculate_quality_score qs' = calculate_quality_score qs))
   \<and> (0 \<le> calculate_security_score ds \<and> calculate_security_score ds \<le> 100
    \<and> calculate_security_score [] = 100
    \<and> calculate_security_score ds
        = max 0 (100 - (\<Sum>d\<leftarrow>ds. if pii_type d = ''ssn'' then 30
                              else if pii_type d = ''credit_card'' then 25
                              else if pii_type d = ''address'' then 20
                              else if pii_type d = ''email'' then 15
                              else if pii_type d = ''phone'' then 10
                              else if pii_type d = ''name'' then 5 else 10))
    \<and> (\<forall>ds'. mset ds' = mset ds \<longrightarrow> calculate_security_score ds' = calculate_security_score ds))"
proof -
  have nonneg: "(0::int) \<le> sum_list (map f xs)" if "\<And>x. 0 \<le> f x" for f and xs :: "'b list"
    using that by (induction xs) (auto simp: add_nonneg_nonneg)
  have c0: "0 \<le> (\<Sum>v\<leftarrow>vs. dict_get compliance_penalties (cv_type v) 10)"
    by (rule nonneg) (simp add: compliance_penalty_table)
  have q0: "0 \<le> (\<Sum>i\<leftarrow>qs. dict_get quality_penalties (qi_type i) 10)"
    by (rule nonneg) (simp add: quality_penalty_table)
  have d0: "0 \<le> (\<Sum>d\<leftarrow>ds. dict_get security_penalties (pii_type d) 10)"
    by (rule nonneg) (simp add: security_penalty_table)
  have c: "calculate_compliance_score vs
             = max 0 (100 - (\<Sum>v\<leftarrow>vs. dict_get compliance_penalties (cv_type v) 10))"
    by (simp add: calculate_compliance_score_def)
  have q: "calculate_quality_score qs
             = max 0 (100 - (\<Sum>i\<leftarrow>qs. dict_get quality_penalties (qi_type i) 10))"
    by (simp add: calculate_quality_score_def)
  have d: "calculate_security_score ds
             = max 0 (100 - (\<Sum>d\<leftarrow>ds. dict_get security_penalties (pii_type d) 10))"
    by (simp add: calculate_security_score_def)
  show ?thesis
  proof (intro conjI allI impI)
    show "0 \<le> calculate_compliance_score vs" "calculate_compliance_score vs \<le> 100"
      using c0 by (simp_all add: c)
    show "0 \<le> calculate_quality_score qs" "calculate_quality_score qs \<le> 100"
      using q0 by (simp_all add: q)
    show "0 \<le> calculate_security_score ds" "calculate_security_score ds \<le> 100"
      using d0 by (simp_all add: d)
    show "calculate_compliance_score [] = 100" "calculate_quality_score [] = 100"
         "calculate_security_score [] = 100"
      by (simp_all add: calculate_compliance_score_def calculate_quality_score_def
                        calculate_security_score_def)
    show "calculate_compliance_score vs
        = max 0 (100 - (\<Sum>v\<leftarrow>vs. if cv_type v = ''jailbreak'' then 25
                              else if cv_type v = ''prompt_injection'' then 20
                              else if cv_type v = ''financial_advice'' then 15
                              else if cv_type v = ''misuse'' then 40 else 10))"
      by (simp only: c compliance_penalty_table)
    show "calculate_quality_score qs
        = max 0 (100 - (\<Sum>i\<leftarrow>qs. if qi_type i = ''hallucination'' then 20
                              else if qi_type i \<in> {''bias_cultural'', ''bias_gender'',
                                                    ''bias_social'', ''bias_age''} then 15
                              else if qi_type i = ''input_drift'' then 10
                              else if qi_type i = ''output_drift'' then 15 else 10))"
      by (simp only: q quality_penalty_table)
    show "calculate_security_score ds
        = max 0 (100 - (\<Sum>d\<leftarrow>ds. if pii_type d = ''ssn'' then 30
                              else if pii_type d = ''credit_card'' then 25
                              else if pii_type d = ''address'' then 20
                              else if pii_type d = ''email'' then 15
                              else if pii_type d = ''phone'' then 10
                              else if pii_type d = ''name'' then 5 else 10))"
      by (simp only: d security_penalty_table)
    show "calculate_compliance_score vs' = calculate_compliance_score vs" if "mset vs' = mset vs" for vs'
      using that by (rule compliance_score_perm)
    show "calculate_quality_score qs' = calculate_quality_score qs" if "mset qs' = mset qs" for qs'
      using that by (rule quality_score_perm)
    show "calculate_security_score ds' = calculate_security_score ds" if "mset ds' = mset ds" for ds'
      using that by (rule security_score_perm)
  qed
qed

theorem score_functions_contract_witness:
  "mset [\<lparr>cv_type = ''misuse'', cv_severity = ''CRITICAL'', cv_description = ''fraud '', cv_position = 7, cv_confidence = 98 / 100\<rparr>,
         \<lparr>cv_type = ''jailbreak'', cv_severity = ''HIGH'', cv_description = ''jailbreak'', cv_position = 0, cv_confidence = 95 / 100\<rparr>]
     = mset [\<lparr>cv_type = ''jailbreak'', cv_severity = ''HIGH'', cv_description = ''jailbreak'', cv_position = 0, cv_confidence = 95 / 100\<rparr>,
             \<lparr>cv_type = ''misuse'', cv_severity = ''CRITICAL'', cv_description = ''fraud '', cv_position = 7, cv_confidence = 98 / 100\<rparr>]
   \<and> calculate_compliance_score
        [\<lparr>cv_type = ''misuse'', cv_severity = ''CRITICAL'', cv_description = ''fraud '', cv_position = 7, cv_confidence = 98 / 100\<rparr>,
         \<lparr>cv_type = ''jailbreak'', cv_severity = ''HIGH'', cv_description = ''jailbreak'', cv_position = 0, cv_confidence = 95 / 100\<rparr>]
     = 35"
  using score_functions_contract
          [of "[\<lparr>cv_type = ''jailbreak'', cv_severity = ''HIGH'', cv_description = ''jailbreak'', cv_position = 0, cv_confidence = 95 / 100\<rparr>,
                \<lparr>cv_type = ''misuse'', cv_severity = ''CRITICAL'', cv_description = ''fraud '', cv_position = 7, cv_confidence = 98 / 100\<rparr>]"
              "[]" "[]"]
  by (simp add: add_mset_commute)

section \<open>Properties of the performance tracker\<close>

text \<open>
  Claim C4, as stated, fails: \<open>track_api_call\<close> also adds its estimate of 0.1 seconds to
  \<open>compute_time\<close>, so one call with 100 tokens on a fresh tracker costs 0.016 and not 0.011.
  The difference of 0.005 is far from any rounding of the few float operations involved,
  which the model idealises as real arithmetic.
\<close>

theorem track_api_call_total_cost_counterexample:
  "\<not> \<bar>get_total_cost (track_api_call (PerformanceTools_init :: unit PerformanceTools) 100 ''api'') - 11 / 1000\<bar> < 1 / 1000"
  by (simp add: get_total_cost_def track_api_call_def PerformanceTools_init_def)

lemma total_cost_formula:
  assumes "default_rates s"
  shows "get_total_cost s = real_of_int (api_calls s) * (1 / 1000) + real_of_int (tokens_used s) * (1 / 10000)
                            + storage_used s * (1 / 100) + compute_time s * (5 / 100)"
proof -
  from assms have r: "rate_api_call s = 1 / 1000" "rate_token s = 1 / 10000"
      "rate_storage_mb s = 1 / 100" "rate_compute_second s = 5 / 100"
    by (simp_all add: default_rates_def)
  show ?thesis unfolding get_total_cost_def Let_def r ..
qed

text \<open>
  Claim C4, amended. After one \<open>track_api_call\<close> with 100 tokens on a fresh tracker the total
  cost is \<open>0.001 + 100 * 0.0001 + 0.1 * 0.05 = 0.016\<close>; and with the rates of \<open>__init__\<close> the
  total cost of any state is
  \<open>api_calls * 0.001 + tokens_used * 0.0001 + storage_used * 0.01 + compute_time * 0.05\<close>.
\<close>

theorem total_cost_model:
  "get_total_cost (track_api_call (PerformanceTools_init :: 'a PerformanceTools) 100 call_type)
     = 1 / 1000 + 100 * (1 / 10000) + (1 / 10) * (5 / 100)
   \<and> get_total_cost (track_api_call (PerformanceTools_init :: 'a PerformanceTools) 100 call_type) = 16 / 1000
   \<and> (default_rates s \<longrightarrow>
        get_total_cost s = real_of_int (api_calls s) * (1 / 1000) + real_of_int (tokens_used s) * (1 / 10000)
                            + storage_used s * (1 / 100) + compute_time s * (5 / 100))"
proof (intro conjI impI)
  show "get_total_cost (track_api_call (PerformanceTools_init :: 'a PerformanceTools) 100 call_type)
     = 1 / 1000 + 100 * (1 / 10000) + (1 / 10) * (5 / 100)"
    by (simp add: get_total_cost_def track_api_call_def PerformanceTools_init_def)
  show "get_total_cost (track_api_call (PerformanceTools_init :: 'a PerformanceTools) 100 call_type) = 16 / 1000"
    by (simp add: get_total_cost_def track_api_call_def PerformanceTools_init_def)
  show "get_total_cost s = real_of_int (api_calls s) * (1 / 1000) + real_of_int (tokens_used s) * (1 / 10000)
                            + storage_used s * (1 / 100) + compute_time s * (5 / 100)"
    if "default_rates s"
    using that by (rule total_cost_formula)
qed

theorem total_cost_model_witness:
  "default_rates (track_storage (track_api_call (PerformanceTools_init :: unit PerformanceTools) 100 ''api'') 2)
   \<and> get_total_cost (track_storage (track_api_call (PerformanceTools_init :: unit PerformanceTools) 100 ''api'') 2)
       = 1 * (1 / 1000) + 100 * (1 / 10000) + 2 * (1 / 100) + (1 / 10) * (5 / 100)"
proof -
  have d: "default_rates (track_storage (track_api_call (PerformanceTools_init :: unit PerformanceTools) 100 ''api'') 2)"
    by (simp add: track_api_call_def track_storage_def PerformanceTools_init_def default_rates_def)
  from total_cost_model [of "''api''" "track_storage (track_api_call (PerformanceTools_init :: unit PerformanceTools) 100 ''api'') 2"] d
  have "get_total_cost (track_storage (track_api_call (PerformanceTools_init :: unit PerformanceTools) 100 ''api'') 2)
        = real_of_int (api_calls (track_storage (track_api_call (PerformanceTools_init :: unit PerformanceTools) 100 ''api'') 2)) * (1 / 1000)
          + real_of_int (tokens_used (track_storage (track_api_call (PerformanceTools_init :: unit PerformanceTools) 100 ''api'') 2)) * (1 / 10000)
          + storage_used (track_storage (track_api_call (PerformanceTools_init :: unit PerformanceTools) 100 ''api'') 2) * (1 / 100)
          + compute_time (track_storage (track_api_call (PerformanceTools_init :: unit PerformanceTools) 100 ''api'') 2) * (5 / 100)"
    by blast
  then show ?thesis using d
    by (simp add: track_api_call_def track_storage_def PerformanceTools_init_def)
qed

section \<open>Properties of the governance store\<close>

lemma slice_last:
  "0 < k \<Longrightarrow> slice xs (Some (- int k)) None = drop (length xs - k) xs"
  by (auto simp: slice_def Let_def max_def nat_diff_distrib' not_less
           intro!: arg_cong2[where f = drop] )

lemma lastn_length: "length (lastn n xs) = min n (length xs)"
  by (simp add: lastn_def)

lemma lastn_id: "length xs \<le> n \<Longrightarrow> lastn n xs = xs"
  by (simp add: lastn_def)

lemma lastn_append_lastn: "lastn n (lastn n xs @ ys) = lastn n (xs @ ys)"
proof (cases "length xs \<le> n")
  case True
  then show ?thesis by (simp add: lastn_def)
next
  case False
  then have "length xs + length ys - (length xs - n + n) + (length xs - n) = length xs + length ys - n"
    by simp
  with False show ?thesis by (simp add: lastn_def)
qed

lemma log_enforcement_log:
  "enforcement_log (log_enforcement g now agent_id action auth why)
     = lastn 1000 (enforcement_log g @ [entry_of (now, agent_id, action, auth, why)])"
  using slice_last[of 1000 "enforcement_log g @ [entry_of (now, agent_id, action, auth, why)]"]
  by (simp add: log_enforcement_def Let_def entry_of_def lastn_def)

lemma log_enforcement_frame:
  "policies (log_enforcement g now agent_id action auth why) = policies g"
  "agent_purposes (log_enforcement g now agent_id action auth why) = agent_purposes g"
  "default_boundaries (log_enforcement g now agent_id action auth why) = default_boundaries g"
  by (simp_all add: log_enforcement_def Let_def)

lemma push_all_log:
  "length (enforcement_log g) \<le> 1000 \<Longrightarrow>
     enforcement_log (push_all g es) = lastn 1000 (enforcement_log g @ map entry_of es)"
proof (induction es arbitrary: g)
  case Nil
  then show ?case by (simp add: push_all_def lastn_id)
next
  case (Cons e es)
  obtain now agent_id action auth why where e: "e = (now, agent_id, action, auth, why)"
    by (cases e) auto
  let ?g = "log_enforcement g now agent_id action auth why"
  have len: "length (enforcement_log ?g) \<le> 1000"
    by (simp add: log_enforcement_log lastn_length)
  have "enforcement_log (push_all g (e # es)) = enforcement_log (push_all ?g es)"
    by (simp add: push_all_def e)
  also have "\<dots> = lastn 1000 (enforcement_log ?g @ map entry_of es)"
    using Cons.IH[OF len] .
  also have "\<dots> = lastn 1000 (enforcement_log g @ map entry_of (e # es))"
    by (simp add: log_enforcement_log lastn_append_lastn e)
  finally show ?case .
qed

lemma check_authorization_log:
  assumes "check_authorization g now agent_id action = Inr (r, g')"
  shows "(map_of (agent_purposes g) agent_id = None \<and> g' = g)
         \<or> (map_of (agent_purposes g) agent_id \<noteq> None
            \<and> (\<exists>why. g' = log_enforcement g now agent_id action (authorized r) why))"
  using assms
  by (auto simp: check_authorization_def bind_err_def exceeds_def
           split: option.splits sum.splits if_splits py_value.splits)

lemma check_authorization_bound:
  assumes "length (enforcement_log g) \<le> 1000"
  shows "length (enforcement_log (case check_authorization g now agent_id action of
                                    Inl e \<Rightarrow> g | Inr (r, g') \<Rightarrow> g')) \<le> 1000"
proof (cases "check_authorization g now agent_id action")
  case (Inl e)
  then show ?thesis using assms by simp
next
  case (Inr p)
  obtain r g' where p: "p = (r, g')" by (cases p)
  from check_authorization_log[OF Inr[unfolded p]] assms
  show ?thesis unfolding Inr p
    by (auto simp: log_enforcement_log lastn_length)
qed

lemma run_checks_bound:
  "length (enforcement_log g) \<le> 1000 \<Longrightarrow> length (enforcement_log (run_checks g calls)) \<le> 1000"
proof (induction calls arbitrary: g)
  case Nil
  then show ?case by simp
next
  case (Cons c calls)
  obtain now agent_id action where c: "c = (now, agent_id, action)" by (cases c) auto
  show ?case unfolding c run_checks.simps
    by (rule Cons.IH) (rule check_authorization_bound[OF Cons.prems])
qed

lemma admin_access_occurs:
  "contains (str_lower ''request admin access to db'') (str_lower ''admin access'')"
  by code_simp

lemma find_Some_of_member: "x \<in> set xs \<Longrightarrow> P x \<Longrightarrow> \<exists>y. find P xs = Some y"
  by (induction xs) auto

text \<open>
  Claim C3 says that every call of \<open>check_authorization\<close> appends one entry to the enforcement
  log, also when the agent is not registered. The code returns for an unregistered agent before
  any call of \<open>_log_enforcement\<close>: the store, and with it the log, is unchanged, whereas every
  other outcome logs (lemma \<open>check_authorization_log\<close>).
\<close>

theorem unregistered_agent_not_logged:
  "map_of (agent_purposes g) agent_id = None \<Longrightarrow>
     check_authorization g now agent_id action
       = Inr (\<lparr>authorized = False, reason = ''Agent non enregistr'' @ [CHR 0xE9],
               recommendation = ''Enregistrer l'agent avec define_agent_purpose''\<rparr>, g)"
  by (simp add: check_authorization_def)

theorem unregistered_agent_not_logged_witness:
  "map_of (agent_purposes (GovernanceTools_init (\<lambda>k. 0))) ''unregistered_agent'' = None
   \<and> map_sum id (\<lambda>(r, g'). (authorized r, enforcement_log g'))
        (check_authorization (GovernanceTools_init (\<lambda>k. 0)) 0 ''unregistered_agent'' ''do X'')
      = Inr (False, [])"
proof -
  have h: "map_of (agent_purposes (GovernanceTools_init (\<lambda>k. 0))) ''unregistered_agent'' = None"
    by (simp add: GovernanceTools_init_def)
  show ?thesis
    using h unregistered_agent_not_logged [OF h, of 0 "''do X''"]
    by (simp add: GovernanceTools_init_def)
qed

text \<open>
  Claim C6, as stated, fails for a list of prohibited use cases that holds \<open>admin access\<close> after
  another entry that also occurs in the action: the loop returns at the first entry that
  occurs, and the reason cites that entry.
\<close>

theorem prohibited_reason_counterexample:
  "map_sum id (\<lambda>(r, g'). (authorized r, reason r))
     (check_authorization
        (snd (define_agent_purpose (GovernanceTools_init (\<lambda>k. 0)) 0 ''agent_1'' ''Agent'' ''support''
                [''answer questions''] (Some [''db'', ''admin access'']) None None))
        1 ''agent_1'' ''request admin access to db'')
   = Inr (False, ''Cas d'usage interdit: db'')
   \<and> \<not> contains ''Cas d'usage interdit: db'' ''admin access''"
  by code_simp

text \<open>
  Claim C6, amended. For an agent that is not registered, \<open>check_authorization\<close> returns
  \<open>authorized = False\<close> with the reason \<open>Agent non enregistr\'e\<close>. For an agent registered with
  prohibited use cases that contain \<open>admin access\<close>, the action \<open>request admin access to db\<close> is
  denied with a reason that cites the first listed prohibited use case occurring (without
  regard to case) in the action; that is \<open>admin access\<close> when the list is \<open>[admin access]\<close>.
\<close>

theorem check_authorization_denials:
  "(map_of (agent_purposes g) agent_id = None \<longrightarrow>
      (\<exists>r g'. check_authorization g now agent_id action = Inr (r, g') \<and> authorized r = False
               \<and> reason r = ''Agent non enregistr'' @ [CHR 0xE9]))
   \<and> (map_of (agent_purposes g) agent_id = Some p
        \<and> ''admin access'' \<in> set (prohibited_use_cases p) \<longrightarrow>
      (\<exists>r g' q. check_authorization g now agent_id ''request admin access to db'' = Inr (r, g')
               \<and> authorized r = False
               \<and> find (\<lambda>q. contains (str_lower ''request admin access to db'') (str_lower q))
                       (prohibited_use_cases p) = Some q
               \<and> reason r = ''Cas d'usage interdit: '' @ q))
   \<and> (map_of (agent_purposes g) agent_id = Some p
        \<and> prohibited_use_cases p = [''admin access''] \<longrightarrow>
      (\<exists>r g'. check_authorization g now agent_id ''request admin access to db'' = Inr (r, g')
               \<and> authorized r = False
               \<and> reason r = ''Cas d'usage interdit: admin access''))"
proof (intro conjI impI)
  assume "map_of (agent_purposes g) agent_id = None"
  then show "\<exists>r g'. check_authorization g now agent_id action = Inr (r, g') \<and> authorized r = False
               \<and> reason r = ''Agent non enregistr'' @ [CHR 0xE9]"
    by (simp add: check_authorization_def)
next
  assume a: "map_of (agent_purposes g) agent_id = Some p \<and> ''admin access'' \<in> set (prohibited_use_cases p)"
  then obtain q where q: "find (\<lambda>q. contains (str_lower ''request admin access to db'') (str_lower q))
                       (prohibited_use_cases p) = Some q"
    using find_Some_of_member[of "''admin access''" "prohibited_use_cases p"
            "\<lambda>q. contains (str_lower ''request admin access to db'') (str_lower q)"]
          admin_access_occurs by blast
  show "\<exists>r g' q. check_authorization g now agent_id ''request admin access to db'' = Inr (r, g')
               \<and> authorized r = False
               \<and> find (\<lambda>q. contains (str_lower ''request admin access to db'') (str_lower q))
                       (prohibited_use_cases p) = Some q
               \<and> reason r = ''Cas d'usage interdit: '' @ q"
    using a q by (simp add: check_authorization_def)
next
  assume a: "map_of (agent_purposes g) agent_id = Some p \<and> prohibited_use_cases p = [''admin access'']"
  have "find (\<lambda>q. contains (str_lower ''request admin access to db'') (str_lower q))
          [''admin access''] = Some ''admin access''"
    using admin_access_occurs by simp
  then show "\<exists>r g'. check_authorization g now agent_id ''request admin access to db'' = Inr (r, g')
               \<and> authorized r = False
               \<and> reason r = ''Cas d'usage interdit: admin access''"
    using a by (simp add: check_authorization_def)
qed


theorem check_authorization_denials_witness:
  "map_of (agent_purposes (snd (define_agent_purpose (GovernanceTools_init (\<lambda>k. 0)) 0 ''agent_1''
             ''Agent'' ''support'' [''answer questions''] (Some [''admin access'']) None None))) ''ghost'' = None
   \<and> (\<exists>r g'. check_authorization
                 (snd (define_agent_purpose (GovernanceTools_init (\<lambda>k. 0)) 0 ''agent_1''
                    ''Agent'' ''support'' [''answer questions''] (Some [''admin access'']) None None))
                 1 ''ghost'' ''do X'' = Inr (r, g')
              \<and> authorized r = False \<and> reason r = ''Agent non enregistr'' @ [CHR 0xE9])
   \<and> map_of (agent_purposes (snd (define_agent_purpose (GovernanceTools_init (\<lambda>k. 0)) 0 ''agent_1''
             ''Agent'' ''support'' [''answer questions''] (Some [''admin access'']) None None))) ''agent_1''
       = Some (fst (define_agent_purpose (GovernanceTools_init (\<lambda>k. 0)) 0 ''agent_1''
             ''Agent'' ''support'' [''answer questions''] (Some [''admin access'']) None None))
   \<and> prohibited_use_cases (fst (define_agent_purpose (GovernanceTools_init (\<lambda>k. 0)) 0 ''agent_1''
             ''Agent'' ''support'' [''answer questions''] (Some [''admin access'']) None None))
       = [''admin access'']
   \<and> (\<exists>r g'. check_authorization
                 (snd (define_agent_purpose (GovernanceTools_init (\<lambda>k. 0)) 0 ''agent_1''
                    ''Agent'' ''support'' [''answer questions''] (Some [''admin access'']) None None))
                 1 ''agent_1'' ''request admin access to db'' = Inr (r, g')
              \<and> authorized r = False \<and> reason r = ''Cas d'usage interdit: admin access'')"
proof -
  let ?G = "snd (define_agent_purpose (GovernanceTools_init (\<lambda>k. 0)) 0 ''agent_1''
             ''Agent'' ''support'' [''answer questions''] (Some [''admin access'']) None None)"
  let ?P = "fst (define_agent_purpose (GovernanceTools_init (\<lambda>k. 0)) 0 ''agent_1''
             ''Agent'' ''support'' [''answer questions''] (Some [''admin access'']) None None)"
  have h0: "map_of (agent_purposes ?G) ''ghost'' = None"
    by (simp add: define_agent_purpose_def GovernanceTools_init_def dict_set_def Let_def)
  have h1: "map_of (agent_purposes ?G) ''agent_1'' = Some ?P"
    by (simp add: define_agent_purpose_def GovernanceTools_init_def dict_set_def Let_def)
  have h2: "prohibited_use_cases ?P = [''admin access'']"
    by (simp add: define_agent_purpose_def Let_def)
  from check_authorization_denials [where g = "?G" and agent_id = "''ghost''" and now = 1
                                      and action = "''do X''"] h0
  have a: "\<exists>r g'. check_authorization ?G 1 ''ghost'' ''do X'' = Inr (r, g')
              \<and> authorized r = False \<and> reason r = ''Agent non enregistr'' @ [CHR 0xE9]"
    by blast
  from check_authorization_denials [where g = "?G" and agent_id = "''agent_1''" and now = 1
                                      and p = "?P"] h1 h2
  have b: "\<exists>r g'. check_authorization ?G 1 ''agent_1'' ''request admin access to db'' = Inr (r, g')
              \<and> authorized r = False \<and> reason r = ''Cas d'usage interdit: admin access''"
    by blast
  from h0 a h1 h2 b show ?thesis by blast
qed

text \<open>
  Claim C5. The enforcement log never holds more than 1000 entries after any sequence of
  authorization calls, and eviction is oldest first: after more than 1000 entries have been
  pushed, the log is the 1000 most recent of them in the order in which they were appended.
\<close>

theorem enforcement_log_bounded:
  "(length (enforcement_log g) \<le> 1000 \<longrightarrow> length (enforcement_log (run_checks g calls)) \<le> 1000)
   \<and> length (enforcement_log (run_checks (GovernanceTools_init clock) calls)) \<le> 1000
   \<and> (length (enforcement_log g) \<le> 1000 \<longrightarrow>
        enforcement_log (push_all g es) = lastn 1000 (enforcement_log g @ map entry_of es))
   \<and> (1000 < length es \<longrightarrow>
        enforcement_log (push_all (GovernanceTools_init clock) es)
          = drop (length es - 1000) (map entry_of es)
        \<and> length (enforcement_log (push_all (GovernanceTools_init clock) es)) = 1000)"
proof (intro conjI impI)
  show "length (enforcement_log (run_checks g calls)) \<le> 1000" if "length (enforcement_log g) \<le> 1000"
    using that by (rule run_checks_bound)
  show "length (enforcement_log (run_checks (GovernanceTools_init clock) calls)) \<le> 1000"
    by (rule run_checks_bound) (simp add: GovernanceTools_init_def)
  show "enforcement_log (push_all g es) = lastn 1000 (enforcement_log g @ map entry_of es)"
    if "length (enforcement_log g) \<le> 1000"
    using that by (rule push_all_log)
  have init: "enforcement_log (push_all (GovernanceTools_init clock) es) = lastn 1000 (map entry_of es)"
    using push_all_log[of "GovernanceTools_init clock" es] by (simp add: GovernanceTools_init_def)
  show "enforcement_log (push_all (GovernanceTools_init clock) es) = drop (length es - 1000) (map entry_of es)"
    if "1000 < length es"
    using init by (simp add: lastn_def)
  show "length (enforcement_log (push_all (GovernanceTools_init clock) es)) = 1000"
    if "1000 < length es"
    using init that by (simp add: lastn_def)
qed

theorem enforcement_log_bounded_witness:
  "1000 < length (map (\<lambda>i. (real i, ''agent_1'', ''read report'', True, ''Action autoris'' @ [CHR 0xE9] @ ''e'')) [0..<1500])
   \<and> enforcement_log (push_all (GovernanceTools_init (\<lambda>k. 0))
         (map (\<lambda>i. (real i, ''agent_1'', ''read report'', True, ''Action autoris'' @ [CHR 0xE9] @ ''e'')) [0..<1500]))
       = map (\<lambda>i. \<lparr>log_timestamp = real i, log_agent_id = ''agent_1'', log_action = ''read report'',
                    log_authorized = True, log_reason = ''Action autoris'' @ [CHR 0xE9] @ ''e''\<rparr>) [500..<1500]
   \<and> length (enforcement_log (GovernanceTools_init (\<lambda>k. 0))) \<le> 1000
   \<and> length (enforcement_log (run_checks (GovernanceTools_init (\<lambda>k. 0))
         [(1, ''unregistered_agent'', ''do X''), (2, ''unregistered_agent'', ''do Y'')])) \<le> 1000"
proof -
  let ?es = "map (\<lambda>i. (real i, ''agent_1'', ''read report'', True, ''Action autoris'' @ [CHR 0xE9] @ ''e'')) [0..<1500]"
  have l: "1000 < length ?es" by simp
  have i: "length (enforcement_log (GovernanceTools_init (\<lambda>k. 0))) \<le> 1000"
    by (simp add: GovernanceTools_init_def)
  note t = enforcement_log_bounded [where g = "GovernanceTools_init (\<lambda>k. 0)" and clock = "\<lambda>k. 0"
             and es = ?es
             and calls = "[(1, ''unregistered_agent'', ''do X''), (2, ''unregistered_agent'', ''do Y'')]"]
  from t l have "enforcement_log (push_all (GovernanceTools_init (\<lambda>k. 0)) ?es)
                  = drop (length ?es - 1000) (map entry_of ?es)"
    by blast
  also have "\<dots> = map (\<lambda>i. \<lparr>log_timestamp = real i, log_agent_id = ''agent_1'', log_action = ''read report'',
                    log_authorized = True, log_reason = ''Action autoris'' @ [CHR 0xE9] @ ''e''\<rparr>) [500..<1500]"
    by (simp add: drop_map entry_of_def comp_def)
  finally have e: "enforcement_log (push_all (GovernanceTools_init (\<lambda>k. 0)) ?es)
      = map (\<lambda>i. \<lparr>log_timestamp = real i, log_agent_id = ''agent_1'', log_action = ''read report'',
                    log_authorized = True, log_reason = ''Action autoris'' @ [CHR 0xE9] @ ''e''\<rparr>) [500..<1500]" .
  from t i have r: "length (enforcement_log (run_checks (GovernanceTools_init (\<lambda>k. 0))
         [(1, ''unregistered_agent'', ''do X''), (2, ''unregistered_agent'', ''do Y'')])) \<le> 1000"
    by blast
  from l e i r show ?thesis by blast
qed

lemma map_of_dict_set: "map_of (dict_set d k v) = (map_of d)(k \<mapsto> v)"
  by (simp add: dict_set_def update_conv')

lemma tasks_untouched_init: "tasks_untouched PerformanceTools_init"
  by (simp add: tasks_untouched_def PerformanceTools_init_def)

lemma apply_op_untouched:
  assumes "tasks_untouched s"
  shows "\<exists>s'. apply_op s c = Inr s' \<and> tasks_untouched s'
              \<and> intervention_count s' = intervention_count s + (if is_intervention c then 1 else 0)"
proof (cases c)
  case (Start_task now task_id description)
  with assms show ?thesis
    by (auto simp: tasks_untouched_def start_task_def map_of_dict_set)
next
  case (Add_step now step_desc kind)
  show ?thesis
  proof (cases "truthy (current_task_id s)")
    case False
    with assms Add_step show ?thesis
      by (auto simp: add_step_def truthy_def split: option.splits)
  next
    case True
    then obtain cur where cur: "current_task_id s = Some cur" "cur \<noteq> []"
      by (auto simp: truthy_def split: option.splits)
    with assms obtain t where t: "map_of (task_steps s) cur = Some t" "interventions t = 0"
      by (auto simp: tasks_untouched_def)
    with assms Add_step cur show ?thesis
      by (auto simp: add_step_def Let_def bind_err_def dict_item_def tasks_untouched_def
                     map_of_dict_set)
  qed
next
  case (Track_human_intervention now why task_id)
  with assms show ?thesis
    by (auto simp: tasks_untouched_def track_human_intervention_def Let_def)
qed

lemma run_ops_untouched:
  "tasks_untouched s \<Longrightarrow>
     \<exists>s'. run_ops s ops = Inr s' \<and> tasks_untouched s'
          \<and> intervention_count s' = intervention_count s + length (filter is_intervention ops)"
proof (induction ops arbitrary: s)
  case Nil
  then show ?case by simp
next
  case (Cons c cs)
  from apply_op_untouched[OF Cons.prems, of c] obtain s1 where
    s1: "apply_op s c = Inr s1" "tasks_untouched s1"
        "intervention_count s1 = intervention_count s + (if is_intervention c then 1 else 0)"
    by blast
  from Cons.IH[OF s1(2)] obtain s2 where
    s2: "run_ops s1 cs = Inr s2" "tasks_untouched s2"
        "intervention_count s2 = intervention_count s1 + length (filter is_intervention cs)"
    by blast
  from s1 s2 show ?case by (auto simp: bind_err_def)
qed

lemma end_task_untouched:
  assumes "tasks_untouched s"
  shows "\<exists>res s'. end_task s now ok = Inr (res, s')
           \<and> (case res of None \<Rightarrow> \<not> truthy (current_task_id s)
               | Some m \<Rightarrow> truthy (current_task_id s) \<and> m_interventions m = 0)"
proof (cases "truthy (current_task_id s)")
  case False
  then show ?thesis
    by (auto simp: end_task_def truthy_def split: option.splits)
next
  case True
  then obtain cur where cur: "current_task_id s = Some cur" "cur \<noteq> []"
    by (auto simp: truthy_def split: option.splits)
  with assms obtain t where t: "map_of (task_steps s) cur = Some t" "interventions t = 0"
    by (auto simp: tasks_untouched_def)
  with cur True show ?thesis
    by (simp add: end_task_def Let_def bind_err_def dict_item_def)
qed

lemma track_human_intervention_frame:
  "task_steps (track_human_intervention s now why task_id) = task_steps s"
  "intervention_count (track_human_intervention s now why task_id) = intervention_count s + 1"
  by (simp_all add: track_human_intervention_def Let_def)

text \<open>
  Claim C10. After any sequence of \<open>start_task\<close>, \<open>add_step\<close> and \<open>track_human_intervention\<close>
  calls on a fresh tracker, \<open>end_task\<close> returns the empty dict when no task is current, and
  otherwise metrics whose \<open>interventions\<close> is 0, however many interventions were tracked:
  \<open>track_human_intervention\<close> adds one to the counter of the tracker and leaves the task table,
  which \<open>end_task\<close> reads, as it was.
\<close>

theorem end_task_interventions_zero:
  "(\<exists>s res s'. run_ops (PerformanceTools_init :: 'a PerformanceTools) ops = Inr s
       \<and> intervention_count s = length (filter is_intervention ops)
       \<and> end_task s now ok = Inr (res, s')
       \<and> (case res of None \<Rightarrow> \<not> truthy (current_task_id s)
           | Some m \<Rightarrow> truthy (current_task_id s) \<and> m_interventions m = 0))
   \<and> task_steps (track_human_intervention (t :: 'a PerformanceTools) now' why task_id) = task_steps t
   \<and> intervention_count (track_human_intervention t now' why task_id) = intervention_count t + 1"
proof -
  from run_ops_untouched[OF tasks_untouched_init, of ops] obtain s :: "'a PerformanceTools" where
    s: "run_ops PerformanceTools_init ops = Inr s" "tasks_untouched s"
       "intervention_count s = length (filter is_intervention ops)"
    by (auto simp: PerformanceTools_init_def)
  from end_task_untouched[OF s(2), of now ok] s(1,3) track_human_intervention_frame[of t now' why task_id]
  show ?thesis by blast
qed

lemma end_task_example:
  "map_sum id (\<lambda>(res, s'). map_option (\<lambda>m. (m_task_id m, m_total_steps m, m_interventions m)) res)
     (bind_err (run_ops (PerformanceTools_init :: unit PerformanceTools)
                  [Start_task 0 ''t1'' None, Add_step 1 ''load'' ''general'',
                   Track_human_intervention 2 ''approve'' None,
                   Track_human_intervention 3 ''approve again'' (Some ''t1'')])
        (\<lambda>s. end_task s 4 True))
   = Inr (Some (''t1'', 1, 0))"
  by code_simp

subsection \<open>Loop detection\<close>

lemma dict_get_dict_set:
  "dict_get (dict_set d k v) k' dflt = (if k' = k then v else dict_get d k' dflt)"
  by (simp add: dict_get_def map_of_dict_set)

lemma dict_get_counts:
  "dict_get (foldl (\<lambda>d k. dict_set d k (dict_get d k 0 + 1)) d keys) k (0::int)
     = dict_get d k 0 + int (count_list keys k)"
  by (induction keys arbitrary: d) (auto simp: dict_get_dict_set)

lemma function_counts_entry:
  assumes "0 < count_list keys k"
  shows "(k, int (count_list keys k)) \<in> set (function_counts keys)"
proof -
  have g: "dict_get (function_counts keys) k 0 = int (count_list keys k)"
    using dict_get_counts[of "[]" keys k] by (simp add: function_counts_def dict_get_def)
  with assms obtain v where "map_of (function_counts keys) k = Some v"
    by (cases "map_of (function_counts keys) k") (auto simp: dict_get_def)
  with g show ?thesis by (auto simp: dict_get_def dest: map_of_SomeD)
qed

lemma foldl_max_ge: "(x::int) \<le> foldl max x xs \<and> (\<forall>y \<in> set xs. y \<le> foldl max x xs)"
proof (induction xs arbitrary: x)
  case Nil
  then show ?case by simp
next
  case (Cons a xs)
  from Cons.IH[of "max x a"] show ?case by auto
qed

lemma py_max_ge:
  assumes "x \<in> set xs"
  shows "\<exists>m. py_max xs = Inr m \<and> x \<le> m"
proof (cases xs)
  case Nil
  with assms show ?thesis by simp
next
  case (Cons a rest)
  with assms foldl_max_ge[of a rest] show ?thesis by (auto simp: py_max_def)
qed

lemma py_max_total: "xs \<noteq> [] \<Longrightarrow> \<exists>m. py_max xs = Inr m"
  by (cases xs) (auto simp: py_max_def)

lemma count_list_map_ge:
  assumes "\<And>x. P x \<Longrightarrow> g x = k"
  shows "length (filter P xs) \<le> count_list (map g xs) k"
  using assms by (induction xs) auto

lemma function_counts_nonempty: "keys \<noteq> [] \<Longrightarrow> function_counts keys \<noteq> []"
proof -
  assume "keys \<noteq> []"
  then obtain k ks where "keys = k # ks" by (cases keys) auto
  then have "0 < count_list keys k" by simp
  from function_counts_entry[OF this] show ?thesis by auto
qed

lemma repeated_key_found:
  assumes "3 < length (filter (\<lambda>c. call_function c = f \<and> h (call_args c) = v) recent)"
  shows "\<exists>m. py_max (map snd (function_counts (map (call_key h) recent))) = Inr m \<and> 3 < m"
proof -
  let ?k = "f @ ''_'' @ str_int v"
  have "length (filter (\<lambda>c. call_function c = f \<and> h (call_args c) = v) recent)
          \<le> count_list (map (call_key h) recent) ?k"
    by (rule count_list_map_ge) (simp add: call_key_def)
  with assms have c: "3 < count_list (map (call_key h) recent) ?k" by simp
  then have "(?k, int (count_list (map (call_key h) recent) ?k))
               \<in> set (function_counts (map (call_key h) recent))"
    by (intro function_counts_entry) simp
  then have "int (count_list (map (call_key h) recent) ?k)
               \<in> set (map snd (function_counts (map (call_key h) recent)))"
    by force
  from py_max_ge[OF this] c show ?thesis by auto
qed

lemma history_after_call:
  assumes "max_calls s = 100"
  shows "(if int (length (call_history s @ [c])) > max_calls s
          then slice (call_history s @ [c]) (Some (- max_calls s)) None else call_history s @ [c])
         = lastn 100 (call_history s @ [c])"
  using slice_last[of 100 "call_history s @ [c]"] assms
  by (simp add: lastn_def)

lemma lastn_nonempty: "0 < n \<Longrightarrow> xs \<noteq> [] \<Longrightarrow> lastn n xs \<noteq> []"
  by (cases xs) (auto simp: lastn_def)

lemma lastn_last: "0 < n \<Longrightarrow> xs \<noteq> [] \<Longrightarrow> last (lastn n xs) = last xs"
  by (cases xs) (auto simp: lastn_def)

lemma detect_infinite_loop_unfold:
  fixes s :: "'a PerformanceTools" and f :: string and a :: 'a and now :: real and h :: "'a \<Rightarrow> int"
  assumes cfg: "max_calls s = 100" "timeout_threshold s = 30" "pattern_detection s"
    and hist: "hist = lastn 100 (call_history s @
             [\<lparr>call_function = f, call_args = a, call_timestamp = now\<rparr>])"
  shows "detect_infinite_loop h s now f a =
      bind_err (if 5 \<le> length (lastn 10 hist)
                then bind_err (py_max (map snd (function_counts (map (call_key h) (lastn 10 hist)))))
                       (\<lambda>most. Inr (3 < most))
                else Inr False)
        (\<lambda>repeated. if repeated then Inr (True, s\<lparr>call_history := hist\<rparr>)
                     else if 1 < length hist \<and> 30 < now - call_timestamp (hist ! 0)
                     then Inr (True, s\<lparr>call_history := hist\<rparr>)
                     else Inr (False, s\<lparr>call_history := hist\<rparr>))"
proof -
  have recent: "slice hist (Some (- 10)) None = lastn 10 hist"
    using slice_last[of 10 hist] by (simp add: lastn_def)
  have h1: "(if int (length (call_history s @ [\<lparr>call_function = f, call_args = a, call_timestamp = now\<rparr>])) > max_calls s
          then slice (call_history s @ [\<lparr>call_function = f, call_args = a, call_timestamp = now\<rparr>]) (Some (- max_calls s)) None
          else call_history s @ [\<lparr>call_function = f, call_args = a, call_timestamp = now\<rparr>])
         = hist"
    unfolding hist by (rule history_after_call[OF cfg(1)])
  show ?thesis
    unfolding detect_infinite_loop_def Let_def h1 recent
    using cfg(2,3) by (simp only: simp_thms)
qed

lemma detect_infinite_loop_result:
  fixes s :: "'a PerformanceTools" and f :: string and a :: 'a and now :: real and h :: "'a \<Rightarrow> int"
  assumes cfg: "max_calls s = 100" "timeout_threshold s = 30" "pattern_detection s"
    and hist: "hist = lastn 100 (call_history s @
             [\<lparr>call_function = f, call_args = a, call_timestamp = now\<rparr>])"
  shows "\<exists>b. detect_infinite_loop h s now f a = Inr (b, s\<lparr>call_history := hist\<rparr>)
           \<and> ((5 \<le> length hist
                 \<and> (\<exists>f' v. 3 < length (filter (\<lambda>c. call_function c = f' \<and> h (call_args c) = v)
                                          (lastn 10 hist)))) \<longrightarrow> b)
           \<and> (30 < call_timestamp (last hist) - call_timestamp (hd hist) \<longrightarrow> b)"
proof -
  have hist_ne: "hist \<noteq> []" unfolding hist by (rule lastn_nonempty) simp_all
  have last_hist: "call_timestamp (last hist) = now"
    unfolding hist by (simp add: lastn_last)
  have len_recent: "length (lastn 10 hist) = min 10 (length hist)" by (rule lastn_length)
  have hd0: "hist ! 0 = hd hist" using hist_ne by (simp add: hd_conv_nth)
  note unfold = detect_infinite_loop_unfold[OF cfg hist, of h]
  let ?counts = "map snd (function_counts (map (call_key h) (lastn 10 hist)))"
  let ?s' = "s\<lparr>call_history := hist\<rparr>"
  let ?late = "1 < length hist \<and> 30 < now - call_timestamp (hist ! 0)"
  show ?thesis
  proof (cases "5 \<le> length hist")
    case False
    then have small: "\<not> 5 \<le> length (lastn 10 hist)" by (simp add: len_recent)
    have res: "detect_infinite_loop h s now f a = Inr (?late, ?s')"
      unfolding unfold using small by (simp add: bind_err_def)
    have "?late" if "30 < call_timestamp (last hist) - call_timestamp (hd hist)"
    proof -
      have "1 < length hist"
      proof (rule ccontr)
        assume "\<not> 1 < length hist"
        with hist_ne have "last hist = hd hist" by (cases hist) auto
        with that show False by simp
      qed
      with that show ?thesis by (simp add: last_hist hd0)
    qed
    with res False show ?thesis by blast
  next
    case True
    then have big: "5 \<le> length (lastn 10 hist)" by (simp add: len_recent)
    then have "lastn 10 hist \<noteq> []" by auto
    then have "?counts \<noteq> []" by (simp add: function_counts_nonempty)
    from py_max_total[OF this] obtain m where m: "py_max ?counts = Inr m" by blast
    have res: "detect_infinite_loop h s now f a = Inr (3 < m \<or> ?late, ?s')"
      unfolding unfold using big m by (simp add: bind_err_def)
    have rep: "3 < m"
      if "\<exists>f' v. 3 < length (filter (\<lambda>c. call_function c = f' \<and> h (call_args c) = v) (lastn 10 hist))"
    proof -
      from that obtain f' v where
        "3 < length (filter (\<lambda>c. call_function c = f' \<and> h (call_args c) = v) (lastn 10 hist))"
        by blast
      from repeated_key_found[OF this] m show ?thesis by simp
    qed
    have late: "?late" if "30 < call_timestamp (last hist) - call_timestamp (hd hist)"
      using that True by (simp add: last_hist hd0)
    from res rep late show ?thesis by blast
  qed
qed

text \<open>
  Claim C7, as stated, fails: the repetition check runs only when the window of the last 10
  records holds at least 5 records, so a fourth identical call on a fresh tracker is not
  flagged although its key then occurs 4 times among the last 10 records.
\<close>

theorem detect_infinite_loop_counterexample:
  "map_sum id (\<lambda>(b, s'). (b, length (filter (\<lambda>c. call_function c = ''fetch'' \<and> (0::int) = 0)
                                       (lastn 10 (call_history s')))))
     (bind_err (detect_infinite_loop (\<lambda>a. 0) (PerformanceTools_init :: unit PerformanceTools) 0 ''fetch'' ())
        (\<lambda>r1. bind_err (detect_infinite_loop (\<lambda>a. 0) (snd r1) 1 ''fetch'' ())
        (\<lambda>r2. bind_err (detect_infinite_loop (\<lambda>a. 0) (snd r2) 2 ''fetch'' ())
        (\<lambda>r3. detect_infinite_loop (\<lambda>a. 0) (snd r3) 3 ''fetch'' ()))))
   = Inr (False, 4)"
  by code_simp

text \<open>
  Claim C7, amended. With the settings of \<open>__init__\<close>, \<open>detect_infinite_loop\<close> appends a call
  record to a history bounded at 100 entries (oldest evicted), and returns true whenever the
  history then holds at least 5 records and, among its last 10 records, some
  \<open>(function_name, hash(args))\<close> key occurs more than 3 times; it also returns true when the
  elapsed time between the oldest and the newest record of the history exceeds 30 seconds.
\<close>

theorem detect_infinite_loop_flags:
  "max_calls s = 100 \<and> timeout_threshold s = 30 \<and> pattern_detection s \<longrightarrow>
     (\<exists>b s'. detect_infinite_loop h s now f a = Inr (b, s')
        \<and> call_history s' = lastn 100 (call_history s @
             [\<lparr>call_function = f, call_args = a, call_timestamp = now\<rparr>])
        \<and> length (call_history s') \<le> 100
        \<and> max_calls s' = 100 \<and> timeout_threshold s' = 30 \<and> pattern_detection s'
        \<and> ((5 \<le> length (call_history s')
              \<and> (\<exists>f' v. 3 < length (filter (\<lambda>c. call_function c = f' \<and> h (call_args c) = v)
                                       (lastn 10 (call_history s'))))) \<longrightarrow> b)
        \<and> (30 < call_timestamp (last (call_history s')) - call_timestamp (hd (call_history s'))
             \<longrightarrow> b))"
proof
  assume cfg: "max_calls s = 100 \<and> timeout_threshold s = 30 \<and> pattern_detection s"
  let ?hist = "lastn 100 (call_history s @ [\<lparr>call_function = f, call_args = a, call_timestamp = now\<rparr>])"
  from cfg have c: "max_calls s = 100" "timeout_threshold s = 30" "pattern_detection s" by simp_all
  from detect_infinite_loop_result[OF c refl, where h = h and f = f and a = a and now = now] obtain b where
    b: "detect_infinite_loop h s now f a = Inr (b, s\<lparr>call_history := ?hist\<rparr>)"
       "(5 \<le> length ?hist
          \<and> (\<exists>f' v. 3 < length (filter (\<lambda>c. call_function c = f' \<and> h (call_args c) = v)
                                   (lastn 10 ?hist)))) \<longrightarrow> b"
       "30 < call_timestamp (last ?hist) - call_timestamp (hd ?hist) \<longrightarrow> b"
    by blast
  have len: "length ?hist \<le> 100" by (simp add: lastn_length)
  show "\<exists>b s'. detect_infinite_loop h s now f a = Inr (b, s')
        \<and> call_history s' = ?hist
        \<and> length (call_history s') \<le> 100
        \<and> max_calls s' = 100 \<and> timeout_threshold s' = 30 \<and> pattern_detection s'
        \<and> ((5 \<le> length (call_history s')
              \<and> (\<exists>f' v. 3 < length (filter (\<lambda>c. call_function c = f' \<and> h (call_args c) = v)
                                       (lastn 10 (call_history s'))))) \<longrightarrow> b)
        \<and> (30 < call_timestamp (last (call_history s')) - call_timestamp (hd (call_history s'))
             \<longrightarrow> b)"
    apply (rule exI[of _ b])
    apply (rule exI[of _ "s\<lparr>call_history := ?hist\<rparr>"])
    using b len cfg by simp
qed


theorem detect_infinite_loop_flags_witness:
  "max_calls ((PerformanceTools_init :: unit PerformanceTools)
      \<lparr>call_history := replicate 4 \<lparr>call_function = ''fetch'', call_args = (), call_timestamp = 0\<rparr>\<rparr>) = 100
   \<and> timeout_threshold ((PerformanceTools_init :: unit PerformanceTools)
      \<lparr>call_history := replicate 4 \<lparr>call_function = ''fetch'', call_args = (), call_timestamp = 0\<rparr>\<rparr>) = 30
   \<and> pattern_detection ((PerformanceTools_init :: unit PerformanceTools)
      \<lparr>call_history := replicate 4 \<lparr>call_function = ''fetch'', call_args = (), call_timestamp = 0\<rparr>\<rparr>)
   \<and> (\<exists>s'. detect_infinite_loop (\<lambda>a. 7)
              ((PerformanceTools_init :: unit PerformanceTools)
                 \<lparr>call_history := replicate 4 \<lparr>call_function = ''fetch'', call_args = (), call_timestamp = 0\<rparr>\<rparr>)
              1 ''fetch'' () = Inr (True, s')
           \<and> length (call_history s') = 5)"
proof -
  let ?c = "\<lparr>call_function = ''fetch'', call_args = (), call_timestamp = 0::real\<rparr>"
  let ?d = "\<lparr>call_function = ''fetch'', call_args = (), call_timestamp = 1::real\<rparr>"
  let ?s = "(PerformanceTools_init :: unit PerformanceTools)\<lparr>call_history := replicate 4 ?c\<rparr>"
  have cfg: "max_calls ?s = 100 \<and> timeout_threshold ?s = 30 \<and> pattern_detection ?s"
    by (simp add: PerformanceTools_init_def)
  have hist: "lastn 100 (call_history ?s @ [?d]) = [?c, ?c, ?c, ?c, ?d]"
    by (simp add: lastn_def numeral_eq_Suc)
  note t = detect_infinite_loop_flags [where s = ?s and h = "\<lambda>a. 7" and now = 1 and f = "''fetch''"
                                       and a = "()", THEN mp, OF cfg]
  from t obtain b s' where r:
    "detect_infinite_loop (\<lambda>a. 7) ?s 1 ''fetch'' () = Inr (b, s')"
    "call_history s' = lastn 100 (call_history ?s @ [?d])"
    "(5 \<le> length (call_history s')
        \<and> (\<exists>f' v. 3 < length (filter (\<lambda>c. call_function c = f' \<and> (7::int) = v)
                                 (lastn 10 (call_history s'))))) \<longrightarrow> b"
    by blast
  have h': "call_history s' = [?c, ?c, ?c, ?c, ?d]" using r(2) hist by simp
  have "3 < length (filter (\<lambda>c. call_function c = ''fetch'' \<and> (7::int) = 7)
                      (lastn 10 (call_history s')))"
    by (simp add: h' lastn_def)
  then have "\<exists>f' v. 3 < length (filter (\<lambda>c. call_function c = f' \<and> (7::int) = v)
                      (lastn 10 (call_history s')))"
    by blast
  with r(3) h' have b by simp
  with r(1) h' cfg show ?thesis by auto
qed

section \<open>Properties of the drift tracker\<close>



lemma np_mean_some: "xs \<noteq> [] \<Longrightarrow> np_mean xs = Some (mean xs)"
  by (simp add: np_mean_def mean_def)






lemma remember_lastn:
  "0 < bound \<Longrightarrow> remember (int bound) history now text
     = lastn bound (history @ [\<lparr>h_text = text, h_timestamp = now, h_length = length text,
                                h_word_count = length (split_ws text)\<rparr>])"
  using slice_last[of bound "history @ [\<lparr>h_text = text, h_timestamp = now, h_length = length text,
                                h_word_count = length (split_ws text)\<rparr>]"]
  by (simp add: remember_def Let_def lastn_def)




end
